theory Spec2Isabelle
  imports Complex_Main "HOL-Library.AList" "HOL-Library.Monad_Syntax"
begin

section \<open>Python strings\<close>

text \<open>
  A Python \<^verbatim>\<open>str\<close> is a sequence of Unicode code points, and \<^verbatim>\<open>len\<close>, slicing and the
  regular expressions of the sources all count code points. A string is therefore a list
  of code points (natural numbers); \<open>U\<close> reads an ASCII literal as such a list, and the
  few non-ASCII characters of the sources (the emoji of the media markup and of the log
  lines) are written as their code points.
\<close>

type_synonym ustr = "nat list"

definition U :: "string \<Rightarrow> ustr" where
  "U s = map of_char s"

text \<open>\<^verbatim>\<open>str(n)\<close> for an integer: decimal digits, with a minus sign for a negative number.\<close>

fun str_nat :: "nat \<Rightarrow> ustr" where
  "str_nat n = (if n < 10 then [48 + n] else str_nat (n div 10) @ [48 + n mod 10])"

declare str_nat.simps [simp del]

definition str_int :: "int \<Rightarrow> ustr" where
  "str_int i = (if i < 0 then 45 # str_nat (nat (- i)) else str_nat (nat i))"

text \<open>\<^verbatim>\<open>s.startswith(p)\<close> and \<^verbatim>\<open>p in s\<close>.\<close>

fun startswith :: "ustr \<Rightarrow> ustr \<Rightarrow> bool" where
  "startswith [] s = True"
| "startswith (p # ps) [] = False"
| "startswith (p # ps) (c # cs) = (p = c \<and> startswith ps cs)"

fun contains :: "ustr \<Rightarrow> ustr \<Rightarrow> bool" where
  "contains sub [] = (sub = [])"
| "contains sub (c # cs) = (startswith sub (c # cs) \<or> contains sub cs)"

text \<open>
  \<^verbatim>\<open>s.strip()\<close> removes leading and trailing white space; \<open>is_space\<close> lists the code points
  for which \<^verbatim>\<open>str.isspace\<close> holds.
\<close>

definition is_space :: "nat \<Rightarrow> bool" where
  "is_space c = ((9 \<le> c \<and> c \<le> 13) \<or> (28 \<le> c \<and> c \<le> 32) \<or> c = 0x85 \<or> c = 0xA0
     \<or> c = 0x1680 \<or> (0x2000 \<le> c \<and> c \<le> 0x200A) \<or> c = 0x2028 \<or> c = 0x2029
     \<or> c = 0x202F \<or> c = 0x205F \<or> c = 0x3000)"

definition py_strip :: "ustr \<Rightarrow> ustr" where
  "py_strip s = rev (dropWhile is_space (rev (dropWhile is_space s)))"

text \<open>
  The case mappings and the digit class of Unicode belong to Python's character data,
  not to the repository, and are parameters of the model: \<open>str_lower\<close> is \<^verbatim>\<open>s.lower()\<close>
  (which may change the length of a text); \<open>same_letter c d\<close> holds when the regular
  expression engine, under \<^verbatim>\<open>re.IGNORECASE\<close>, lets the pattern character \<open>c\<close> match the
  character \<open>d\<close> of the text; \<open>is_decimal\<close> is the class \<^verbatim>\<open>\d\<close>.
\<close>

record unicode_db =
  str_lower :: "ustr \<Rightarrow> ustr"
  same_letter :: "nat \<Rightarrow> nat \<Rightarrow> bool"
  is_decimal :: "nat \<Rightarrow> bool"

text \<open>The ASCII digits, for \<^verbatim>\<open>int(s)\<close> on the output of the archiver script.\<close>

definition is_digit :: "nat \<Rightarrow> bool" where
  "is_digit c = (48 \<le> c \<and> c \<le> 57)"


section \<open>telegram\_archiver.py: file names\<close>

text \<open>
  \<^verbatim>\<open>sanitize_filename\<close>: \<^verbatim>\<open>re.sub(r'[<>:"/\\|?*]', '_', text)\<close> replaces each character of
  the class by an underscore, and the result is cut to its first 100 characters.
\<close>

definition invalid_chars :: "nat list" where
  "invalid_chars = [0x3C, 0x3E, 0x3A, 0x22, 0x2F, 0x5C, 0x7C, 0x3F, 0x2A]"

definition replace_invalid :: "nat \<Rightarrow> nat" where
  "replace_invalid c = (if c \<in> set invalid_chars then 0x5F else c)"

definition sanitize_filename :: "ustr \<Rightarrow> ustr" where
  "sanitize_filename text =
     (let sanitized = map replace_invalid text
      in if length sanitized > 100 then take 100 sanitized else sanitized)"



section \<open>telegram\_archiver.py: messages\<close>

text \<open>
  The fields of a Telethon message that the archiver reads. An attribute of a document
  either carries a \<^verbatim>\<open>file_name\<close> or has no such field; a sender is a user (first and last
  name, both optional), a channel or chat (a title), or some other entity.
\<close>

datatype doc_attribute = DocumentAttributeFilename ustr | DocumentAttributeOther

record document =
  attributes :: "doc_attribute list"
  mime_type :: "ustr option"

datatype media =
    MessageMediaPhoto
  | MessageMediaDocument "document option"
  | MessageMediaOther ustr

datatype sender = User "ustr option" "ustr option" | Titled ustr | OtherEntity

record datetime =
  year :: nat
  month :: nat
  day :: nat
  hour :: nat
  minute :: nat
  second :: nat

record message =
  msg_id :: int
  msg_date :: datetime
  msg_sender :: "sender option"
  msg_text :: "ustr option"
  msg_media :: "media option"
  msg_forward :: bool
  msg_reply_to :: "int option option"

text \<open>
  The field \<open>msg_reply_to\<close> is \<^verbatim>\<open>message.reply_to\<close>: absent, or a reply header whose
  \<^verbatim>\<open>reply_to_msg_id\<close> is an integer or \<^verbatim>\<open>None\<close>. \<open>MessageMediaOther n\<close> is a media object of
  any other class, named \<open>n\<close>.
\<close>

text \<open>Truth values of Python: \<^verbatim>\<open>None\<close> and the empty string are false.\<close>

definition truthy :: "ustr option \<Rightarrow> bool" where
  "truthy s = (case s of None \<Rightarrow> False | Some t \<Rightarrow> t \<noteq> [])"

text \<open>\<^verbatim>\<open>strftime\<close> with the formats \<^verbatim>\<open>%Y-%m-%d\<close> and \<^verbatim>\<open>%Y-%m-%d %H:%M:%S\<close>.\<close>

definition zfill :: "nat \<Rightarrow> ustr \<Rightarrow> ustr" where
  "zfill w s = replicate (w - length s) 48 @ s"

definition strftime_date :: "datetime \<Rightarrow> ustr" where
  "strftime_date d =
     zfill 4 (str_nat (year d)) @ U ''-'' @ zfill 2 (str_nat (month d)) @ U ''-''
       @ zfill 2 (str_nat (day d))"

definition strftime_datetime :: "datetime \<Rightarrow> ustr" where
  "strftime_datetime d =
     strftime_date d @ U '' '' @ zfill 2 (str_nat (hour d)) @ U '':''
       @ zfill 2 (str_nat (minute d)) @ U '':'' @ zfill 2 (str_nat (second d))"

text \<open>
  \<^verbatim>\<open>Path(name).suffix\<close> of pathlib (POSIX flavour): the name is the last path component
  that is neither empty nor a single dot, and its suffix starts at the last dot, unless
  that dot is the first or the last character of the name.
\<close>

fun split_on :: "nat \<Rightarrow> ustr \<Rightarrow> ustr list" where
  "split_on sep [] = [[]]"
| "split_on sep (c # cs) =
     (if c = sep then [] # split_on sep cs
      else (case split_on sep cs of [] \<Rightarrow> [[c]] | p # ps \<Rightarrow> (c # p) # ps))"

definition path_name :: "ustr \<Rightarrow> ustr" where
  "path_name p =
     (case filter (\<lambda>part. part \<noteq> [] \<and> part \<noteq> [46]) (split_on 47 p) of
        [] \<Rightarrow> []
      | part # parts \<Rightarrow> last (part # parts))"

definition rfind :: "nat \<Rightarrow> ustr \<Rightarrow> nat option" where
  "rfind c s =
     (if c \<in> set s then Some (length s - 1 - length (takeWhile (\<lambda>x. x \<noteq> c) (rev s)))
      else None)"

definition path_suffix :: "ustr \<Rightarrow> ustr" where
  "path_suffix p =
     (let name = path_name p
      in case rfind 46 name of
           None \<Rightarrow> []
         | Some i \<Rightarrow> if 0 < i \<and> i < length name - 1 then drop i name else [])"

text \<open>The loop over the attributes stops at the first one with a non-empty file name.\<close>

fun first_file_name :: "doc_attribute list \<Rightarrow> ustr option" where
  "first_file_name [] = None"
| "first_file_name (DocumentAttributeFilename n # as) =
     (if n \<noteq> [] then Some n else first_file_name as)"
| "first_file_name (DocumentAttributeOther # as) = first_file_name as"

definition mime_to_ext :: "(ustr \<times> ustr) list" where
  "mime_to_ext =
     [(U ''image/jpeg'', U ''.jpg''),
      (U ''image/png'', U ''.png''),
      (U ''image/gif'', U ''.gif''),
      (U ''image/webp'', U ''.webp''),
      (U ''video/mp4'', U ''.mp4''),
      (U ''video/webm'', U ''.webm''),
      (U ''application/pdf'', U ''.pdf''),
      (U ''text/plain'', U ''.txt'')]"

definition dict_get :: "('k \<times> 'v) list \<Rightarrow> 'k \<Rightarrow> 'v \<Rightarrow> 'v" where
  "dict_get d k dflt = (case map_of d k of None \<Rightarrow> dflt | Some v \<Rightarrow> v)"

text \<open>The extension that \<^verbatim>\<open>download_media_file\<close> computes, branch by branch.\<close>

definition document_extension :: "document \<Rightarrow> ustr" where
  "document_extension d =
     (let file_extension =
            (case first_file_name (attributes d) of
               None \<Rightarrow> []
             | Some original_name \<Rightarrow> path_suffix original_name)
      in if file_extension = [] \<and> truthy (mime_type d)
         then dict_get mime_to_ext (the (mime_type d)) (U ''.bin'')
         else file_extension)"

definition file_extension_of :: "media \<Rightarrow> ustr" where
  "file_extension_of m =
     (case m of
        MessageMediaPhoto \<Rightarrow> U ''.jpg''
      | MessageMediaDocument None \<Rightarrow> []
      | MessageMediaDocument (Some d) \<Rightarrow> document_extension d
      | MessageMediaOther n \<Rightarrow> [])"

definition media_filename :: "media \<Rightarrow> int \<Rightarrow> ustr" where
  "media_filename m message_id = (U ''msg_'' @ str_int message_id) @ file_extension_of m"

text \<open>
  The files written by the archiver are a store from paths to contents. The Telegram
  client's \<^verbatim>\<open>download_media(message, file=path)\<close> is a parameter: it may change the store
  and returns the path it wrote, or nothing when the download fails or raises.
\<close>

type_synonym fs = "ustr \<rightharpoonup> ustr"

type_synonym downloader = "message \<Rightarrow> ustr \<Rightarrow> fs \<Rightarrow> fs \<times> ustr option"

definition download_media_file ::
  "downloader \<Rightarrow> bool \<Rightarrow> message \<Rightarrow> ustr \<Rightarrow> int \<Rightarrow> fs \<Rightarrow> fs \<times> ustr option" where
  "download_media_file client_download_media download_media message media_dir message_id files =
     (case msg_media message of
        None \<Rightarrow> (files, None)
      | Some m \<Rightarrow>
          if \<not> download_media then (files, None)
          else
            (let filename = media_filename m message_id;
                 file_path = media_dir @ U ''/'' @ filename;
                 (files', downloaded_path) = client_download_media message file_path files
             in if truthy downloaded_path then (files', Some (U ''media/'' @ filename))
                else (files', None)))"


section \<open>telegram\_archiver.py: markdown rendering\<close>

definition sender_label :: "sender option \<Rightarrow> ustr" where
  "sender_label s =
     (case s of
        None \<Rightarrow> U ''Unknown''
      | Some (User first_name last_name) \<Rightarrow>
          (let sender = (if truthy first_name then the first_name else U ''Unknown'')
           in if truthy last_name then sender @ U '' '' @ the last_name else sender)
      | Some (Titled title) \<Rightarrow> title
      | Some OtherEntity \<Rightarrow> U ''Unknown'')"

definition camera :: ustr where "camera = [0x1F4F7]"

definition paperclip :: ustr where "paperclip = [0x1F4CE]"

definition media_markup :: "media \<Rightarrow> ustr option \<Rightarrow> ustr" where
  "media_markup m media_path =
     (case m of
        MessageMediaPhoto \<Rightarrow>
          if truthy media_path
          then U ''**Media:** '' @ camera @ U '' Photo\<newline>\<newline>![Photo]('' @ the media_path
                 @ U '')\<newline>\<newline>''
          else U ''**Media:** '' @ camera @ U '' Photo\<newline>\<newline>''
      | MessageMediaDocument None \<Rightarrow> []
      | MessageMediaDocument (Some d) \<Rightarrow>
          (let file_name =
                 (case first_file_name (attributes d) of None \<Rightarrow> U ''Unknown'' | Some n \<Rightarrow> n)
           in if truthy media_path
              then if truthy (mime_type d) \<and> startswith (U ''image/'') (the (mime_type d))
                   then U ''**Media:** '' @ camera @ U '' Image Document ('' @ file_name
                          @ U '')\<newline>\<newline>!['' @ file_name @ U '']('' @ the media_path
                          @ U '')\<newline>\<newline>''
                   else U ''**Media:** '' @ paperclip @ U '' Document ('' @ file_name
                          @ U '')\<newline>\<newline>[Download '' @ file_name @ U '']('' @ the media_path
                          @ U '')\<newline>\<newline>''
              else U ''**Media:** '' @ paperclip @ U '' Document ('' @ file_name
                     @ U '')\<newline>\<newline>'')
      | MessageMediaOther type_name \<Rightarrow> U ''**Media:** '' @ type_name @ U ''\<newline>\<newline>'')"

definition str_opt_int :: "int option \<Rightarrow> ustr" where
  "str_opt_int v = (case v of None \<Rightarrow> U ''None'' | Some i \<Rightarrow> str_int i)"

definition format_message_as_markdown :: "message \<Rightarrow> ustr \<Rightarrow> ustr option \<Rightarrow> ustr" where
  "format_message_as_markdown message channel_name media_path =
     (let timestamp = strftime_datetime (msg_date message);
          sender = sender_label (msg_sender message);
          markdown_content = U ''## Message '' @ str_int (msg_id message) @ U ''\<newline>\<newline>'';
          markdown_content = markdown_content @ U ''**Channel:** '' @ channel_name @ U ''\<newline>'';
          markdown_content = markdown_content @ U ''**Sender:** '' @ sender @ U ''\<newline>'';
          markdown_content = markdown_content @ U ''**Date:** '' @ timestamp @ U ''\<newline>'';
          markdown_content = markdown_content @ U ''**Message ID:** '' @ str_int (msg_id message)
            @ U ''\<newline>\<newline>'';
          markdown_content =
            (if truthy (msg_text message)
             then markdown_content @ U ''### Content\<newline>\<newline>''
                    @ py_strip (the (msg_text message)) @ U ''\<newline>\<newline>''
             else markdown_content);
          markdown_content =
            (case msg_media message of
               None \<Rightarrow> markdown_content
             | Some m \<Rightarrow> markdown_content @ media_markup m media_path);
          markdown_content =
            (if msg_forward message
             then markdown_content @ U ''**Forwarded Message**\<newline>\<newline>''
             else markdown_content);
          markdown_content =
            (case msg_reply_to message of
               None \<Rightarrow> markdown_content
             | Some reply_to_msg_id \<Rightarrow>
                 markdown_content @ U ''**Reply to:** Message '' @ str_opt_int reply_to_msg_id
                   @ U ''\<newline>\<newline>'')
      in markdown_content @ U ''---\<newline>\<newline>'')"


section \<open>telegram\_monitor.py: the live archive\<close>

text \<open>
  \<^verbatim>\<open>save_single_message\<close> reads the clock twice: \<open>now\<close> names the daily file and
  \<open>now_header\<close> is the time written into the header of a new file. Paths are joined with
  a slash.

  The whole body stands in a \<^verbatim>\<open>try\<close> whose \<^verbatim>\<open>except\<close> branch prints the error and returns.
  The calls that can raise are those of the file system, and the file system is a
  parameter: \<open>mkdir_ok path\<close> holds when \<^verbatim>\<open>path.mkdir(exist_ok=True)\<close> succeeds and
  \<open>open_ok path\<close> when \<^verbatim>\<open>open(path, 'a', encoding='utf-8')\<close> does. When one of them
  raises, nothing more is written.
\<close>

record io_env =
  mkdir_ok :: "ustr \<Rightarrow> bool"
  open_ok :: "ustr \<Rightarrow> bool"

definition live_header :: "ustr \<Rightarrow> ustr \<Rightarrow> datetime \<Rightarrow> ustr" where
  "live_header channel_name date_str now_header =
     U ''# '' @ channel_name @ U '' - Live Archive\<newline>\<newline>''
       @ U ''**Date:** '' @ date_str @ U ''\<newline>''
       @ U ''**Real-time monitoring started:** '' @ strftime_datetime now_header
       @ U ''\<newline>\<newline>''
       @ U ''---\<newline>\<newline>''"

definition live_channel_dir :: "ustr \<Rightarrow> ustr" where
  "live_channel_dir channel_name = U ''live_archive'' @ U ''/'' @ sanitize_filename channel_name"

definition live_log_file :: "ustr \<Rightarrow> datetime \<Rightarrow> ustr" where
  "live_log_file channel_name now =
     live_channel_dir channel_name @ U ''/'' @ sanitize_filename channel_name @ U ''_''
       @ strftime_date now @ U ''_live.md''"

definition open_append :: "fs \<Rightarrow> ustr \<Rightarrow> ustr \<Rightarrow> fs" where
  "open_append files path written =
     files(path \<mapsto> (case files path of None \<Rightarrow> [] | Some old \<Rightarrow> old) @ written)"

definition live_download ::
  "downloader \<Rightarrow> bool \<Rightarrow> message \<Rightarrow> ustr \<Rightarrow> fs \<Rightarrow> fs \<times> ustr option" where
  "live_download client_download_media download_media message channel_name files =
     (let media_dir = live_channel_dir channel_name @ U ''/'' @ U ''media''
      in if msg_media message \<noteq> None \<and> download_media
         then download_media_file client_download_media download_media message media_dir
                (msg_id message) files
         else (files, None))"

definition save_single_message ::
  "io_env \<Rightarrow> downloader \<Rightarrow> bool \<Rightarrow> datetime \<Rightarrow> datetime \<Rightarrow> message \<Rightarrow> ustr \<Rightarrow> fs \<Rightarrow> fs" where
  "save_single_message env client_download_media download_media now now_header message
     channel_name files =
     (let channel_dir = live_channel_dir channel_name;
          media_dir = channel_dir @ U ''/'' @ U ''media''
      in if \<not> mkdir_ok env channel_dir then files
         else if download_media \<and> \<not> mkdir_ok env media_dir then files
         else
           (let (files1, media_path) =
                  live_download client_download_media download_media message channel_name files;
                date_str = strftime_date now;
                log_file = live_log_file channel_name now;
                is_new_file = (files1 log_file = None)
            in if \<not> open_ok env log_file then files1
               else open_append files1 log_file
                      ((if is_new_file then live_header channel_name date_str now_header else [])
                         @ format_message_as_markdown message channel_name media_path)))"

text \<open>
  What the live archive needs from the client: a download changes at most the file it
  is asked to write.
\<close>

definition writes_only_target :: "downloader \<Rightarrow> bool" where
  "writes_only_target client = (\<forall>m p f q. q = p \<or> fst (client m p f) q = f q)"


section \<open>web\_frontend.py: search\<close>

text \<open>
  The archive directories as \<^verbatim>\<open>search_messages\<close> sees them. For an archive directory,
  \<open>iterdir\<close> lists its entries in the order of \<^verbatim>\<open>archive_dir.iterdir()\<close>, and \<open>child name\<close> is
  the path \<^verbatim>\<open>archive_dir / name\<close> when it exists (the name comes from the request and may
  lead anywhere). Each entry has a name, is a directory or not, and holds the files that
  \<^verbatim>\<open>glob("*.md")\<close> yields, in that order. A file whose reading raises (the \<^verbatim>\<open>except\<close> branch
  skips it) has no content.
\<close>

record md_file =
  file_name :: ustr
  file_content :: "ustr option"

record channel_dir =
  dir_name :: ustr
  is_dir :: bool
  md_files :: "md_file list"

record archive_dir =
  iterdir :: "channel_dir list"
  child :: "ustr \<Rightarrow> channel_dir option"

definition glob_md :: "channel_dir \<Rightarrow> md_file list" where
  "glob_md d = (if is_dir d then md_files d else [])"

definition channels_to_search ::
  "ustr option \<Rightarrow> archive_dir list \<Rightarrow> (ustr \<times> channel_dir) list" where
  "channels_to_search channel_name archive_dirs =
     (if truthy channel_name
      then concat (map (\<lambda>archive_dir.
             case child archive_dir (the channel_name) of
               None \<Rightarrow> []
             | Some d \<Rightarrow> [(the channel_name, d)]) archive_dirs)
      else concat (map (\<lambda>archive_dir.
             map (\<lambda>d. (dir_name d, d))
               (filter (\<lambda>d. is_dir d \<and> dir_name d \<noteq> U ''media'') (iterdir archive_dir)))
             archive_dirs))"

text \<open>
  \<^verbatim>\<open>re.split(r'^## Message \d+', content, flags=re.MULTILINE)\<close>. A match starts at the
  beginning of a line (\<open>bol\<close>) and takes the marker and every character of the class
  \<^verbatim>\<open>\d\<close> after it, at least one.
\<close>

definition message_marker :: ustr where
  "message_marker = U ''## Message ''"

definition header_match :: "unicode_db \<Rightarrow> ustr \<Rightarrow> nat option" where
  "header_match db s =
     (let digits = takeWhile (is_decimal db) (drop (length message_marker) s)
      in if startswith message_marker s \<and> digits \<noteq> []
         then Some (length message_marker + length digits) else None)"

fun re_split_headers :: "unicode_db \<Rightarrow> bool \<Rightarrow> ustr \<Rightarrow> ustr list" where
  "re_split_headers db bol [] = [[]]"
| "re_split_headers db bol (c # cs) =
     (case (if bol then header_match db (c # cs) else None) of
        Some n \<Rightarrow> [] # re_split_headers db False (drop (n - 1) cs)
      | None \<Rightarrow>
          (case re_split_headers db (c = 10) cs of
             [] \<Rightarrow> [[c]]
           | p # ps \<Rightarrow> (c # p) # ps))"

text \<open>
  \<^verbatim>\<open>re.search\<close> for a literal followed by one group \<^verbatim>\<open>(\d+)\<close> or \<^verbatim>\<open>([^\n]+)\<close>: the first
  position where the literal stands before at least one character of the class; the
  group is the longest run of the class there.
\<close>

fun re_search_after :: "ustr \<Rightarrow> (nat \<Rightarrow> bool) \<Rightarrow> ustr \<Rightarrow> ustr option" where
  "re_search_after lit cls [] = None"
| "re_search_after lit cls (c # cs) =
     (let grp = takeWhile cls (drop (length lit) (c # cs))
      in if startswith lit (c # cs) \<and> grp \<noteq> [] then Some grp
         else re_search_after lit cls cs)"

text \<open>
  \<^verbatim>\<open>re.search(r'### Content\n\n(.*?)(?=\n\n\*\*|$)', message, re.DOTALL)\<close>: the group is
  the shortest text after the first content marker that is followed by a blank line and
  two asterisks, or by the end of the message (before a final line feed).
\<close>

definition content_marker :: ustr where
  "content_marker = U ''### Content\<newline>\<newline>''"

fun lazy_content :: "ustr \<Rightarrow> ustr" where
  "lazy_content [] = []"
| "lazy_content (c # cs) =
     (if startswith (U ''\<newline>\<newline>**'') (c # cs) \<or> c # cs = [10] then []
      else c # lazy_content cs)"

fun content_search :: "ustr \<Rightarrow> ustr option" where
  "content_search [] = None"
| "content_search (c # cs) =
     (if startswith content_marker (c # cs)
      then Some (lazy_content (drop (length content_marker) (c # cs)))
      else content_search cs)"

text \<open>
  \<^verbatim>\<open>re.sub(f'({re.escape(query)})', r'<mark>\1</mark>', content_text, flags=re.IGNORECASE)\<close>.
  The pattern is the query as a literal, one pattern character for each character of the
  query, so the pattern matches at a position when the text there is at least as long as
  the query and each character of the query matches the character of the text at its
  place (\<open>same_letter\<close>). The scan goes from left to right: at a match the matched text is
  written between the tags and the scan goes on behind it; any other character is copied.
  The empty query matches, with the empty text, before every character and at the end.
\<close>

definition ci_match :: "unicode_db \<Rightarrow> ustr \<Rightarrow> ustr \<Rightarrow> bool" where
  "ci_match db q s = (length q \<le> length s \<and> list_all2 (same_letter db) q (take (length q) s))"

fun highlight :: "unicode_db \<Rightarrow> ustr \<Rightarrow> ustr \<Rightarrow> ustr" where
  "highlight db query [] = (if query = [] then U ''<mark>'' @ U ''</mark>'' else [])"
| "highlight db query (c # cs) =
     (if query = [] then U ''<mark>'' @ U ''</mark>'' @ c # highlight db query cs
      else if ci_match db query (c # cs)
      then U ''<mark>'' @ take (length query) (c # cs) @ U ''</mark>''
             @ highlight db query (drop (length query - 1) cs)
      else c # highlight db query cs)"

text \<open>
  For the statements about the highlighting: a text cut into pieces, each a single
  character left as it is (\<open>Plain\<close>) or a piece that was wrapped (\<open>Marked\<close>), and the pieces
  of one scan.
\<close>

datatype segment = Plain nat | Marked ustr

fun segment_text :: "segment \<Rightarrow> ustr" where
  "segment_text (Plain c) = [c]"
| "segment_text (Marked s) = s"

fun scan_segments :: "unicode_db \<Rightarrow> ustr \<Rightarrow> ustr \<Rightarrow> segment list" where
  "scan_segments db q [] = (if q = [] then [Marked []] else [])"
| "scan_segments db q (c # cs) =
     (if q = [] then Marked [] # Plain c # scan_segments db q cs
      else if ci_match db q (c # cs)
      then Marked (take (length q) (c # cs)) # scan_segments db q (drop (length q - 1) cs)
      else Plain c # scan_segments db q cs)"

record search_result =
  res_channel :: ustr
  res_message_id :: ustr
  res_date :: ustr
  res_sender :: ustr
  res_content :: ustr
  res_full_content :: ustr
  res_has_media :: bool
  res_media_type :: ustr
  res_file :: ustr

text \<open>The cut of the highlighted content to 300 characters and an ellipsis.\<close>

definition truncate_300 :: "ustr \<Rightarrow> ustr" where
  "truncate_300 h = (if length h > 300 then take 300 h @ U ''...'' else h)"

definition clapper :: ustr where "clapper = [0x1F3AC]"

definition not_newline :: "nat \<Rightarrow> bool" where
  "not_newline c = (c \<noteq> 10)"

definition make_result ::
  "unicode_db \<Rightarrow> ustr \<Rightarrow> ustr \<Rightarrow> ustr \<Rightarrow> nat \<Rightarrow> ustr \<Rightarrow> search_result" where
  "make_result db query channel_name md_file_name i message =
     (let msg_id = (case re_search_after (U ''**Message ID:** '') (is_decimal db) message of
                      Some g \<Rightarrow> g | None \<Rightarrow> U ''msg_'' @ str_nat i);
          date = (case re_search_after (U ''**Date:** '') not_newline message of
                    Some g \<Rightarrow> g | None \<Rightarrow> U ''Unknown'');
          sender = (case re_search_after (U ''**Sender:** '') not_newline message of
                      Some g \<Rightarrow> g | None \<Rightarrow> U ''Unknown'');
          content_text = (case content_search message of
                            Some g \<Rightarrow> py_strip g | None \<Rightarrow> []);
          highlighted_content = highlight db query content_text;
          has_media = contains (U ''**Media:**'') message;
          media_type =
            (if has_media
             then if contains (camera @ U '' Photo'') message then U ''Photo''
                  else if contains (paperclip @ U '' Document'') message then U ''Document''
                  else if contains (clapper @ U '' Video'') message then U ''Video''
                  else []
             else [])
      in \<lparr>res_channel = channel_name,
          res_message_id = msg_id,
          res_date = date,
          res_sender = sender,
          res_content = truncate_300 highlighted_content,
          res_full_content = content_text,
          res_has_media = has_media,
          res_media_type = media_type,
          res_file = md_file_name\<rparr>)"

text \<open>
  The three nested loops. Each returns the results so far and whether the
  \<^verbatim>\<open>return results\<close> inside the innermost loop was taken.
\<close>

fun search_loop_messages ::
  "unicode_db \<Rightarrow> ustr \<Rightarrow> int \<Rightarrow> ustr \<Rightarrow> ustr \<Rightarrow> (nat \<times> ustr) list \<Rightarrow> search_result list
     \<Rightarrow> search_result list \<times> bool" where
  "search_loop_messages db query limit channel_name fname [] results = (results, False)"
| "search_loop_messages db query limit channel_name fname ((i, message) # rest) results =
     (if contains (str_lower db query) (str_lower db message)
      then (let results' = results @ [make_result db query channel_name fname i message]
            in if int (length results') \<ge> limit then (results', True)
               else search_loop_messages db query limit channel_name fname rest results')
      else search_loop_messages db query limit channel_name fname rest results)"

fun search_loop_files ::
  "unicode_db \<Rightarrow> ustr \<Rightarrow> int \<Rightarrow> ustr \<Rightarrow> md_file list \<Rightarrow> search_result list
     \<Rightarrow> search_result list \<times> bool" where
  "search_loop_files db query limit channel_name [] results = (results, False)"
| "search_loop_files db query limit channel_name (md_file # rest) results =
     (case file_content md_file of
        None \<Rightarrow> search_loop_files db query limit channel_name rest results
      | Some content \<Rightarrow>
          (let messages = tl (re_split_headers db True content);
               (results', returned) =
                 search_loop_messages db query limit channel_name (file_name md_file)
                   (enumerate 0 messages) results
           in if returned then (results', True)
              else search_loop_files db query limit channel_name rest results'))"

fun search_loop_channels ::
  "unicode_db \<Rightarrow> ustr \<Rightarrow> int \<Rightarrow> (ustr \<times> channel_dir) list \<Rightarrow> search_result list
     \<Rightarrow> search_result list \<times> bool" where
  "search_loop_channels db query limit [] results = (results, False)"
| "search_loop_channels db query limit ((channel_name, dir) # rest) results =
     (let (results', returned) =
            search_loop_files db query limit channel_name (glob_md dir) results
      in if returned then (results', True)
         else search_loop_channels db query limit rest results')"

definition search_messages ::
  "unicode_db \<Rightarrow> archive_dir list \<Rightarrow> ustr \<Rightarrow> ustr option \<Rightarrow> int \<Rightarrow> search_result list" where
  "search_messages db archive_dirs query channel_name limit =
     fst (search_loop_channels db query limit (channels_to_search channel_name archive_dirs) [])"


section \<open>web\_frontend.py: the settings store\<close>

text \<open>
  The configuration is a JSON document. \<^verbatim>\<open>json.load\<close> yields dictionaries that keep
  the order of their keys, and an assignment to a key replaces the value in place or adds
  the key at the end: an object is an association list, updated with \<open>AList.update\<close>.
  Numbers are integers in the model.

  The file \<^verbatim>\<open>config.json\<close> is represented by the document it holds: \<^verbatim>\<open>json.dump\<close> followed
  by \<^verbatim>\<open>json.load\<close> of the standard library returns the document that was written, and the
  model does not go through the text in between. A file that exists and cannot be parsed
  is \<open>Unreadable\<close>. Writing the file succeeds.
\<close>

datatype json =
    JNull
  | JBool bool
  | JNum int
  | JStr ustr
  | JArr "json list"
  | JObj "(ustr \<times> json) list"

datatype config_file = NoFile | Unreadable | Document json

text \<open>
  An endpoint answers with an explicit failure, with the failure of its \<^verbatim>\<open>except\<close> branch
  (\<open>Raised\<close>), or with success, a message and a payload.
\<close>

datatype response = Failure ustr | Raised | Success ustr json

text \<open>
  In the helpers below the result \<open>None\<close> stands for a raised exception, and the steps of
  an endpoint are chained so that the first exception ends it.
\<close>

definition load_config :: "config_file \<Rightarrow> json option" where
  "load_config file =
     (case file of NoFile \<Rightarrow> Some (JObj []) | Unreadable \<Rightarrow> None | Document j \<Rightarrow> Some j)"

definition save_config :: "json \<Rightarrow> config_file" where
  "save_config config = Document config"

definition obj_get :: "json \<Rightarrow> ustr \<Rightarrow> json \<Rightarrow> json option" where
  "obj_get j k dflt = (case j of JObj kvs \<Rightarrow> Some (dict_get kvs k dflt) | _ \<Rightarrow> None)"

definition obj_set :: "json \<Rightarrow> ustr \<Rightarrow> json \<Rightarrow> json option" where
  "obj_set j k v = (case j of JObj kvs \<Rightarrow> Some (JObj (AList.update k v kvs)) | _ \<Rightarrow> None)"

definition str_strip :: "json \<Rightarrow> ustr option" where
  "str_strip j = (case j of JStr s \<Rightarrow> Some (py_strip s) | _ \<Rightarrow> None)"

definition json_len :: "json \<Rightarrow> nat option" where
  "json_len j =
     (case j of
        JArr xs \<Rightarrow> Some (length xs)
      | JObj kvs \<Rightarrow> Some (length kvs)
      | JStr s \<Rightarrow> Some (length s)
      | _ \<Rightarrow> None)"

definition json_iter :: "json \<Rightarrow> json list option" where
  "json_iter j =
     (case j of
        JArr xs \<Rightarrow> Some xs
      | JObj kvs \<Rightarrow> Some (map (\<lambda>kv. JStr (fst kv)) kvs)
      | JStr s \<Rightarrow> Some (map (\<lambda>c. JStr [c]) s)
      | _ \<Rightarrow> None)"

text \<open>\<^verbatim>\<open>key in data\<close>: a key of a dictionary, an element of a list, a piece of a string.\<close>

definition py_in :: "ustr \<Rightarrow> json \<Rightarrow> bool option" where
  "py_in k j =
     (case j of
        JObj kvs \<Rightarrow> Some (map_of kvs k \<noteq> None)
      | JArr xs \<Rightarrow> Some (JStr k \<in> set xs)
      | JStr s \<Rightarrow> Some (contains k s)
      | _ \<Rightarrow> None)"

text \<open>
  The loop of \<^verbatim>\<open>api_add_channel\<close> over the channels: \<open>Some True\<close> when an entry has the
  identifier or the name, and an exception when an entry is not a dictionary.
\<close>

fun channel_exists :: "ustr \<Rightarrow> ustr \<Rightarrow> json list \<Rightarrow> bool option" where
  "channel_exists identifier name [] = Some False"
| "channel_exists identifier name (channel # rest) =
     (case channel of
        JObj kvs \<Rightarrow>
          if dict_get kvs (U ''identifier'') JNull = JStr identifier
             \<or> dict_get kvs (U ''name'') JNull = JStr name
          then Some True
          else channel_exists identifier name rest
      | _ \<Rightarrow> None)"

text \<open>\<^verbatim>\<open>channels.append(x)\<close>: only a list has the method.\<close>

definition list_append :: "json \<Rightarrow> json \<Rightarrow> json option" where
  "list_append j x = (case j of JArr xs \<Rightarrow> Some (JArr (xs @ [x])) | _ \<Rightarrow> None)"

definition new_channel :: "ustr \<Rightarrow> ustr \<Rightarrow> json \<Rightarrow> json" where
  "new_channel identifier name enabled =
     JObj [(U ''identifier'', JStr identifier), (U ''name'', JStr name), (U ''enabled'', enabled)]"

definition add_channel :: "json \<Rightarrow> config_file \<Rightarrow> (response \<times> config_file) option" where
  "add_channel data file = do {
     raw_identifier \<leftarrow> obj_get data (U ''identifier'') (JStr []);
     identifier \<leftarrow> str_strip raw_identifier;
     raw_name \<leftarrow> obj_get data (U ''name'') (JStr []);
     name \<leftarrow> str_strip raw_name;
     enabled \<leftarrow> obj_get data (U ''enabled'') (JBool True);
     if identifier = [] \<or> name = []
     then Some (Failure (U ''Identifier and name are required''), file)
     else if \<not> (startswith (U ''https://t.me/'') identifier \<or> startswith (U ''@'') identifier)
     then Some (Failure
            (U ''Invalid Telegram channel format. Use https://t.me/channel or @channel''), file)
     else do {
       config \<leftarrow> load_config file;
       channels \<leftarrow> obj_get config (U ''channels'') (JArr []);
       entries \<leftarrow> json_iter channels;
       found \<leftarrow> channel_exists identifier name entries;
       if found then Some (Failure (U ''Channel already exists''), file)
       else do {
         appended \<leftarrow> list_append channels (new_channel identifier name enabled);
         config' \<leftarrow> obj_set config (U ''channels'') appended;
         Some (Success (U ''Channel added successfully'') (new_channel identifier name enabled),
               save_config config')
       }
     }
   }"

definition api_add_channel :: "json \<Rightarrow> config_file \<Rightarrow> response \<times> config_file" where
  "api_add_channel data file =
     (case add_channel data file of None \<Rightarrow> (Raised, file) | Some r \<Rightarrow> r)"

text \<open>
  One of the three assignments of \<^verbatim>\<open>api_update_channel\<close>:
  \<^verbatim>\<open>if key in data: channels[channel_index][key] = data[key]\<close>, with \<^verbatim>\<open>.strip()\<close> on the
  value for the identifier and the name.
\<close>

definition data_value :: "json \<Rightarrow> ustr \<Rightarrow> json option" where
  "data_value data key =
     (case data of JObj kvs \<Rightarrow> map_of kvs key | _ \<Rightarrow> None)"

definition set_entry_field :: "json \<Rightarrow> nat \<Rightarrow> ustr \<Rightarrow> json \<Rightarrow> json option" where
  "set_entry_field channels i key v =
     (case channels of
        JArr xs \<Rightarrow>
          if i < length xs
          then (case xs ! i of
                  JObj entry \<Rightarrow> Some (JArr (xs[i := JObj (AList.update key v entry)]))
                | _ \<Rightarrow> None)
          else None
      | _ \<Rightarrow> None)"

definition update_field :: "ustr \<Rightarrow> bool \<Rightarrow> json \<Rightarrow> nat \<Rightarrow> json \<Rightarrow> json option" where
  "update_field key stripped data i channels = do {
     present \<leftarrow> py_in key data;
     if present
     then do {
       raw \<leftarrow> data_value data key;
       v \<leftarrow> (if stripped then map_option JStr (str_strip raw) else Some raw);
       set_entry_field channels i key v
     }
     else Some channels
   }"

text \<open>\<^verbatim>\<open>channels[channel_index]\<close> for an index in range.\<close>

definition json_index :: "json \<Rightarrow> nat \<Rightarrow> json option" where
  "json_index j i =
     (case j of
        JArr xs \<Rightarrow> if i < length xs then Some (xs ! i) else None
      | JStr s \<Rightarrow> if i < length s then Some (JStr [s ! i]) else None
      | _ \<Rightarrow> None)"

definition update_channel :: "int \<Rightarrow> json \<Rightarrow> config_file \<Rightarrow> (response \<times> config_file) option" where
  "update_channel channel_index data file = do {
     config \<leftarrow> load_config file;
     channels \<leftarrow> obj_get config (U ''channels'') (JArr []);
     n \<leftarrow> json_len channels;
     if channel_index < 0 \<or> channel_index \<ge> int n
     then Some (Failure (U ''Channel not found''), file)
     else do {
       channels1 \<leftarrow> update_field (U ''identifier'') True data (nat channel_index) channels;
       channels2 \<leftarrow> update_field (U ''name'') True data (nat channel_index) channels1;
       channels3 \<leftarrow> update_field (U ''enabled'') False data (nat channel_index) channels2;
       config' \<leftarrow> obj_set config (U ''channels'') channels3;
       (case json_index channels3 (nat channel_index) of
          None \<Rightarrow> Some (Raised, save_config config')
        | Some channel \<Rightarrow>
            Some (Success (U ''Channel updated successfully'') channel, save_config config'))
     }
   }"

definition api_update_channel :: "int \<Rightarrow> json \<Rightarrow> config_file \<Rightarrow> response \<times> config_file" where
  "api_update_channel channel_index data file =
     (case update_channel channel_index data file of None \<Rightarrow> (Raised, file) | Some r \<Rightarrow> r)"

text \<open>\<^verbatim>\<open>channels.pop(channel_index)\<close>: the removed entry and the list without it.\<close>

definition list_pop :: "json \<Rightarrow> nat \<Rightarrow> (json \<times> json) option" where
  "list_pop j i =
     (case j of
        JArr xs \<Rightarrow>
          if i < length xs then Some (xs ! i, JArr (take i xs @ drop (Suc i) xs)) else None
      | _ \<Rightarrow> None)"

definition delete_channel :: "int \<Rightarrow> config_file \<Rightarrow> (response \<times> config_file) option" where
  "delete_channel channel_index file = do {
     config \<leftarrow> load_config file;
     channels \<leftarrow> obj_get config (U ''channels'') (JArr []);
     n \<leftarrow> json_len channels;
     if channel_index < 0 \<or> channel_index \<ge> int n
     then Some (Failure (U ''Channel not found''), file)
     else do {
       (deleted_channel, channels') \<leftarrow> list_pop channels (nat channel_index);
       config' \<leftarrow> obj_set config (U ''channels'') channels';
       Some (Success (U ''Channel deleted successfully'') deleted_channel, save_config config')
     }
   }"

definition api_delete_channel :: "int \<Rightarrow> config_file \<Rightarrow> response \<times> config_file" where
  "api_delete_channel channel_index file =
     (case delete_channel channel_index file of None \<Rightarrow> (Raised, file) | Some r \<Rightarrow> r)"

definition is_success :: "response \<Rightarrow> bool" where
  "is_success r = (case r of Success m p \<Rightarrow> True | _ \<Rightarrow> False)"

text \<open>The channel list that \<^verbatim>\<open>api_get_channels\<close> reads back from the file.\<close>

definition config_channels :: "config_file \<Rightarrow> json option" where
  "config_channels file =
     (case load_config file of
        None \<Rightarrow> None
      | Some config \<Rightarrow> obj_get config (U ''channels'') (JArr []))"

text \<open>
  For the statements about the store: a field of the configuration as it is read back
  from the file, and the entry that an update request describes, that is the entry with
  each field the request supplies replaced (the identifier and the name stripped) and
  every other field kept.
\<close>

definition config_field :: "config_file \<Rightarrow> ustr \<Rightarrow> json option" where
  "config_field file k =
     (case load_config file of Some (JObj kvs) \<Rightarrow> map_of kvs k | _ \<Rightarrow> None)"

definition set_supplied :: "ustr \<Rightarrow> bool \<Rightarrow> json \<Rightarrow> json \<Rightarrow> json" where
  "set_supplied key stripped data entry =
     (case data_value data key of
        None \<Rightarrow> entry
      | Some raw \<Rightarrow>
          (case entry of
             JObj e \<Rightarrow>
               (case (if stripped then map_option JStr (str_strip raw) else Some raw) of
                  None \<Rightarrow> entry
                | Some v \<Rightarrow> JObj (AList.update key v e))
           | _ \<Rightarrow> entry))"

definition updated_entry :: "json \<Rightarrow> json \<Rightarrow> json" where
  "updated_entry data entry =
     set_supplied (U ''enabled'') False data
       (set_supplied (U ''name'') True data
          (set_supplied (U ''identifier'') True data entry))"


section \<open>web\_frontend.py: the archiving status\<close>

text \<open>
  The dictionary \<^verbatim>\<open>archiving_status\<close> of the archive manager. The request handlers
  (\<^verbatim>\<open>start_archiving\<close>, \<^verbatim>\<open>stop_archiving\<close>) and the background thread
  (\<^verbatim>\<open>_run_archiving_process\<close>) change it; each of the functions below is one such change,
  and a run of the system is a sequence of them.
\<close>

record archiving_status =
  running :: bool
  progress :: rat
  current_channel :: ustr
  total_channels :: int
  processed_channels :: int
  start_time :: "ustr option"
  logs :: "ustr list"
  error :: "ustr option"
  max_file_size_mb :: "int option"
  skip_large_files :: "bool option"

definition rocket :: ustr where "rocket = [0x1F680]"
definition stop_sign :: ustr where "stop_sign = [0x1F6D1]"
definition folder :: ustr where "folder = [0x1F4C1]"
definition gear :: ustr where "gear = [0x2699, 0xFE0F]"
definition arrows :: ustr where "arrows = [0x1F504]"
definition next_track :: ustr where "next_track = [0x23ED, 0xFE0F]"
definition inbox :: ustr where "inbox = [0x1F4E5]"
definition cross_mark :: ustr where "cross_mark = [0x274C]"
definition check_mark :: ustr where "check_mark = [0x2705]"
definition collision :: ustr where "collision = [0x1F4A5]"

definition log_append :: "ustr \<Rightarrow> archiving_status \<Rightarrow> archiving_status" where
  "log_append entry s = s\<lparr>logs := logs s @ [entry]\<rparr>"

definition start_archiving ::
  "ustr \<Rightarrow> int \<Rightarrow> bool \<Rightarrow> archiving_status \<Rightarrow> response \<times> archiving_status" where
  "start_archiving now_iso max_mb skip s =
     (if running s then (Failure (U ''Archiving is already running''), s)
      else (Success (U ''Archiving started successfully'') JNull,
            \<lparr>running = True, progress = 0, current_channel = U ''Initializing...'',
             total_channels = 0, processed_channels = 0, start_time = Some now_iso,
             logs = [rocket @ U '' Starting archiving process...''], error = None,
             max_file_size_mb = Some max_mb, skip_large_files = Some skip\<rparr>))"

definition stop_archiving :: "archiving_status \<Rightarrow> response \<times> archiving_status" where
  "stop_archiving s =
     (if \<not> running s then (Failure (U ''No archiving process is running''), s)
      else (Success (U ''Archiving stopped successfully'') JNull,
            log_append (stop_sign @ U '' Archiving stopped by user'') (s\<lparr>running := False\<rparr>)))"

text \<open>
  The thread before its loop: the three entries written once the archiver script is
  found and the child process is started.
\<close>

definition str_bool :: "bool \<Rightarrow> ustr" where
  "str_bool b = (if b then U ''True'' else U ''False'')"

definition process_started :: "ustr \<Rightarrow> int \<Rightarrow> bool \<Rightarrow> archiving_status \<Rightarrow> archiving_status" where
  "process_started archiver_script max_mb skip s =
     log_append (arrows @ U '' Archiving process started'')
       (log_append (gear @ U '' Max file size: '' @ str_int max_mb
                      @ U ''MB, Skip large files: '' @ str_bool skip)
          (log_append (folder @ U '' Using archiver script: '' @ archiver_script) s))"

text \<open>\<^verbatim>\<open>s.split(sep)\<close> for a separator that is not empty, and \<^verbatim>\<open>int(s)\<close> on a stripped text
  (an optional sign and ASCII digits).\<close>

fun split_str :: "ustr \<Rightarrow> ustr \<Rightarrow> ustr list" where
  "split_str sep [] = [[]]"
| "split_str sep (c # cs) =
     (if sep \<noteq> [] \<and> startswith sep (c # cs)
      then [] # split_str sep (drop (length sep - 1) cs)
      else (case split_str sep cs of [] \<Rightarrow> [[c]] | p # ps \<Rightarrow> (c # p) # ps))"

definition digits_value :: "ustr \<Rightarrow> nat" where
  "digits_value ds = foldl (\<lambda>acc d. 10 * acc + (d - 48)) 0 ds"

definition py_int :: "ustr \<Rightarrow> int option" where
  "py_int s =
     (case s of
        [] \<Rightarrow> None
      | c # cs \<Rightarrow>
          if c = 45 \<and> cs \<noteq> [] \<and> list_all is_digit cs then Some (- int (digits_value cs))
          else if c = 43 \<and> cs \<noteq> [] \<and> list_all is_digit cs then Some (int (digits_value cs))
          else if list_all is_digit (c # cs) then Some (int (digits_value (c # cs)))
          else None)"

text \<open>
  One pass of the monitoring loop with the line \<open>output\<close> read from the child process:
  the entry, the parsing of the progress, and the cut of the log to its last 100 entries.
\<close>

definition parse_progress :: "ustr \<Rightarrow> archiving_status \<Rightarrow> archiving_status" where
  "parse_progress line s =
     (if contains (U ''Processing channel:'') line
      then s\<lparr>current_channel := py_strip (last (split_str (U ''Processing channel:'') line)),
             processed_channels := processed_channels s + 1\<rparr>
      else if contains (U ''Total channels:'') line
      then (case py_int (py_strip (last (split_str (U ''Total channels:'') line))) of
              None \<Rightarrow> s
            | Some parsed \<Rightarrow> s\<lparr>total_channels := parsed\<rparr>)
      else if contains (U ''Skipping large file'') line
      then log_append (next_track @ U '' '' @ line) s
      else if contains (U ''Downloaded:'') line
      then log_append (inbox @ U '' '' @ line) s
      else s)"

definition update_progress :: "archiving_status \<Rightarrow> archiving_status" where
  "update_progress s =
     (if total_channels s > 0
      then s\<lparr>progress := min 100 (of_int (processed_channels s) / of_int (total_channels s) * 100)\<rparr>
      else s)"

definition keep_last_100 :: "archiving_status \<Rightarrow> archiving_status" where
  "keep_last_100 s =
     (if length (logs s) > 100 then s\<lparr>logs := drop (length (logs s) - 100) (logs s)\<rparr> else s)"

definition read_output :: "ustr \<Rightarrow> archiving_status \<Rightarrow> archiving_status" where
  "read_output output s =
     (if output \<noteq> []
      then (let line = py_strip output
            in if line \<noteq> []
               then keep_last_100 (update_progress (parse_progress line (log_append line s)))
               else s)
      else s)"

text \<open>The exits of the thread: a failed read, the end of the child process, a fatal error.\<close>

definition read_failed :: "ustr \<Rightarrow> archiving_status \<Rightarrow> archiving_status" where
  "read_failed e s = log_append (cross_mark @ U '' Error reading output: '' @ e) s"

definition process_finished :: "int \<Rightarrow> archiving_status \<Rightarrow> archiving_status" where
  "process_finished return_code s =
     (if return_code = 0
      then (log_append (check_mark @ U '' Archiving completed successfully!'') s)
             \<lparr>progress := 100, current_channel := U ''Completed'', running := False\<rparr>
      else (log_append (cross_mark @ U '' Archiving failed with return code: ''
                          @ str_int return_code) s)
             \<lparr>error := Some (U ''Process exited with code '' @ str_int return_code),
              running := False\<rparr>)"

definition fatal_error :: "ustr \<Rightarrow> archiving_status \<Rightarrow> archiving_status" where
  "fatal_error e s =
     (log_append (collision @ U '' Fatal error: '' @ e) s)\<lparr>error := Some e, running := False\<rparr>"

text \<open>The operations that append to the log, and a sequence of them.\<close>

datatype log_op =
    Start ustr int bool
  | ProcessStarted ustr int bool
  | Output ustr
  | ReadFailed ustr
  | ProcessFinished int
  | FatalError ustr
  | Stop

fun apply_log_op :: "log_op \<Rightarrow> archiving_status \<Rightarrow> archiving_status" where
  "apply_log_op (Start now_iso max_mb skip) s = snd (start_archiving now_iso max_mb skip s)"
| "apply_log_op (ProcessStarted script max_mb skip) s = process_started script max_mb skip s"
| "apply_log_op (Output output) s = read_output output s"
| "apply_log_op (ReadFailed e) s = read_failed e s"
| "apply_log_op (ProcessFinished return_code) s = process_finished return_code s"
| "apply_log_op (FatalError e) s = fatal_error e s"
| "apply_log_op Stop s = snd (stop_archiving s)"

definition run_log_ops :: "log_op list \<Rightarrow> archiving_status \<Rightarrow> archiving_status" where
  "run_log_ops ops s = foldl (\<lambda>st op. apply_log_op op st) s ops"

definition initial_status :: archiving_status where
  "initial_status =
     \<lparr>running = False, progress = 0, current_channel = [], total_channels = 0,
      processed_channels = 0, start_time = None, logs = [], error = None,
      max_file_size_mb = None, skip_large_files = None\<rparr>"


section \<open>The extension as the specification words it\<close>

text \<open>
  The specification of the media namer: the extension of the declared original file name
  when one is present, otherwise the extension from the MIME table, and \<^verbatim>\<open>.bin\<close> when
  neither is available. This definition follows those words, for the comparison with
  \<open>file_extension_of\<close>, which follows the code.
\<close>

definition declared_extension :: "media \<Rightarrow> ustr" where
  "declared_extension m =
     (case m of
        MessageMediaDocument (Some d) \<Rightarrow>
          (case first_file_name (attributes d) of None \<Rightarrow> [] | Some n \<Rightarrow> path_suffix n)
      | _ \<Rightarrow> [])"

definition mime_extension :: "media \<Rightarrow> ustr option" where
  "mime_extension m =
     (case m of
        MessageMediaDocument (Some d) \<Rightarrow>
          (case mime_type d of None \<Rightarrow> None | Some t \<Rightarrow> map_of mime_to_ext t)
      | _ \<Rightarrow> None)"

definition claimed_extension :: "media \<Rightarrow> ustr" where
  "claimed_extension m =
     (if declared_extension m \<noteq> [] then declared_extension m
      else case mime_extension m of Some e \<Rightarrow> e | None \<Rightarrow> U ''.bin'')"


section \<open>Example inputs\<close>

text \<open>A client whose downloads succeed and write the file they are asked for.\<close>

definition download_ok :: downloader where
  "download_ok message path files = (files(path \<mapsto> U ''data''), Some path)"

definition no_files :: fs where
  "no_files = Map.empty"

definition example_date :: datetime where
  "example_date = \<lparr>year = 2025, month = 3, day = 7, hour = 9, minute = 5, second = 0\<rparr>"

text \<open>Message 7, with no sender, no text and no annotation, carrying the given media.\<close>

definition bare_message :: "media option \<Rightarrow> message" where
  "bare_message m =
     \<lparr>msg_id = 7, msg_date = example_date, msg_sender = None, msg_text = None,
      msg_media = m, msg_forward = False, msg_reply_to = None\<rparr>"

definition pdf_document :: document where
  "pdf_document =
     \<lparr>attributes = [DocumentAttributeOther, DocumentAttributeFilename (U ''report.final.pdf'')],
      mime_type = Some (U ''application/pdf'')\<rparr>"

text \<open>
  An archive with one channel and one daily file, which holds message 7 with the text
  \<^verbatim>\<open>Hello\<close> as \<open>format_message_as_markdown\<close> renders it.
\<close>

definition example_file :: ustr where
  "example_file = U ''## Message 7\<newline>\<newline>**Channel:** chan\<newline>**Sender:** Unknown\<newline>**Date:** 2025-03-07 09:05:00\<newline>**Message ID:** 7\<newline>\<newline>### Content\<newline>\<newline>Hello\<newline>\<newline>---\<newline>\<newline>''"

text \<open>A directory whose children are its entries, found by their names.\<close>

definition plain_dir :: "channel_dir list \<Rightarrow> archive_dir" where
  "plain_dir ds = \<lparr>iterdir = ds, child = (\<lambda>name. find (\<lambda>d. dir_name d = name) ds)\<rparr>"

definition example_archive :: "archive_dir list" where
  "example_archive =
     [plain_dir
        [\<lparr>dir_name = U ''chan'', is_dir = True,
          md_files = [\<lparr>file_name = U ''chan_2025-03-07_live.md'',
                       file_content = Some example_file\<rparr>]\<rparr>]]"

text \<open>
  The character data on ASCII text: for texts and queries made of ASCII characters,
  \<^verbatim>\<open>s.lower()\<close> maps the capital letters to the small ones, a pattern character matches
  the same letter in either case, and \<^verbatim>\<open>\d\<close> is a digit from 0 to 9. The example inputs
  are such texts.
\<close>

definition ascii_lower :: "nat \<Rightarrow> nat" where
  "ascii_lower c = (if 65 \<le> c \<and> c \<le> 90 then c + 32 else c)"

definition ascii_db :: unicode_db where
  "ascii_db =
     \<lparr>str_lower = map ascii_lower,
      same_letter = (\<lambda>c d. ascii_lower c = ascii_lower d),
      is_decimal = is_digit\<rparr>"

text \<open>
  A file system that refuses a file name of more than 255 bytes in UTF-8 (the limit of
  the Linux file systems) and accepts every other path.
\<close>

definition utf8_width :: "nat \<Rightarrow> nat" where
  "utf8_width c = (if c < 0x80 then 1 else if c < 0x800 then 2 else if c < 0x10000 then 3 else 4)"

definition utf8_length :: "ustr \<Rightarrow> nat" where
  "utf8_length s = sum_list (map utf8_width s)"

definition name_fits :: "ustr \<Rightarrow> bool" where
  "name_fits path = list_all (\<lambda>part. utf8_length part \<le> 255) (split_on 47 path)"

definition name_max_fs :: io_env where
  "name_max_fs = \<lparr>mkdir_ok = name_fits, open_ok = name_fits\<rparr>"

text \<open>A channel title of one hundred CJK characters.\<close>

definition long_title :: ustr where
  "long_title = replicate 100 0x4E2D"

text \<open>A configuration with two channels, and two requests.\<close>

definition channel_a :: json where
  "channel_a = new_channel (U ''@a'') (U ''A'') (JBool True)"

definition channel_b :: json where
  "channel_b = new_channel (U ''https://t.me/b'') (U ''B'') (JBool False)"

definition example_config :: "(ustr \<times> json) list" where
  "example_config =
     [(U ''api_credentials'', JObj [(U ''api_id'', JNum 12345), (U ''api_hash'', JStr (U ''abc''))]),
      (U ''channels'', JArr [channel_a, channel_b]),
      (U ''archive_settings'', JObj [(U ''days_back'', JNum 7)])]"

definition add_request :: json where
  "add_request = JObj [(U ''identifier'', JStr (U '' @c '')), (U ''name'', JStr (U ''C''))]"

definition rename_request :: json where
  "rename_request = JObj [(U ''name'', JStr (U '' Z ''))]"

text \<open>
  A run of the archiving: the start, the child process started, 96 lines \<^verbatim>\<open>x\<close> of its
  output, and the stop by the user.
\<close>

definition example_run :: "log_op list" where
  "example_run =
     Start (U ''2025-03-07T09:05:00'') 50 True
     # ProcessStarted (U ''run_archiver.py'') 50 True
     # replicate 96 (Output (U ''x'')) @ [Stop]"

text \<open>The daily file of the channel \<^verbatim>\<open>chan\<close> on the example date, its header and message 7.\<close>

definition example_log :: ustr where
  "example_log = U ''live_archive/chan/chan_2025-03-07_live.md''"

definition example_header :: ustr where
  "example_header = U ''# chan - Live Archive\<newline>\<newline>**Date:** 2025-03-07\<newline>**Real-time monitoring started:** 2025-03-07 09:05:00\<newline>\<newline>---\<newline>\<newline>''"

definition example_section :: ustr where
  "example_section = U ''## Message 7\<newline>\<newline>**Channel:** chan\<newline>**Sender:** Unknown\<newline>**Date:** 2025-03-07 09:05:00\<newline>**Message ID:** 7\<newline>\<newline>---\<newline>\<newline>''"


section \<open>Properties of the file names\<close>

lemma replace_invalid_valid: "replace_invalid c \<notin> set invalid_chars"
  by (simp add: replace_invalid_def invalid_chars_def)

lemma sanitize_filename_take: "sanitize_filename t = take 100 (map replace_invalid t)"
  by (simp add: sanitize_filename_def Let_def)

lemma sanitize_filename_valid: "c \<in> set (sanitize_filename t) \<Longrightarrow> c \<notin> set invalid_chars"
proof -
  assume "c \<in> set (sanitize_filename t)"
  then have "c \<in> set (map replace_invalid t)"
    unfolding sanitize_filename_take by (rule in_set_takeD)
  then show ?thesis
    using replace_invalid_valid by auto
qed

lemma replace_invalid_literal:
  "replace_invalid c =
     (if c \<in> set (U [CHR ''<'', CHR ''>'', CHR '':'', CHR 0x22, CHR ''/'', CHR 0x5C, CHR ''|'',
                     CHR ''?'', CHR ''*''])
      then of_char (CHR ''_'') else c)"
  by (simp add: replace_invalid_def invalid_chars_def U_def)

text \<open>
  Claim C10. For every input text, \<open>sanitize_filename\<close> returns at most 100 characters,
  none of which is one of the nine characters \<^verbatim>\<open>< > : " / \ | ? *\<close>; the result is the first
  100 characters of the text in which each of those nine characters is replaced by an
  underscore and every other character is kept, in order.
\<close>

theorem sanitize_filename_spec:
  "length (sanitize_filename t) = min 100 (length t)
   \<and> length (sanitize_filename t) \<le> 100
   \<and> set (sanitize_filename t)
       \<inter> set (U [CHR ''<'', CHR ''>'', CHR '':'', CHR 0x22, CHR ''/'', CHR 0x5C, CHR ''|'',
                 CHR ''?'', CHR ''*'']) = {}
   \<and> sanitize_filename t =
       map (\<lambda>c. if c \<in> set (U [CHR ''<'', CHR ''>'', CHR '':'', CHR 0x22, CHR ''/'', CHR 0x5C,
                               CHR ''|'', CHR ''?'', CHR ''*''])
                then of_char (CHR ''_'') else c)
         (take 100 t)"
proof -
  have chars: "invalid_chars = U [CHR ''<'', CHR ''>'', CHR '':'', CHR 0x22, CHR ''/'', CHR 0x5C,
      CHR ''|'', CHR ''?'', CHR ''*'']"
    by (simp add: invalid_chars_def U_def)
  have "set (sanitize_filename t) \<inter> set invalid_chars = {}"
    using sanitize_filename_valid by blast
  moreover have "sanitize_filename t = map replace_invalid (take 100 t)"
    by (simp add: sanitize_filename_take take_map)
  moreover have "replace_invalid =
      (\<lambda>c. if c \<in> set (U [CHR ''<'', CHR ''>'', CHR '':'', CHR 0x22, CHR ''/'', CHR 0x5C,
                               CHR ''|'', CHR ''?'', CHR ''*''])
                then of_char (CHR ''_'') else c)"
    by (rule ext) (rule replace_invalid_literal)
  ultimately show ?thesis
    using chars by simp
qed


section \<open>Properties of the media file names\<close>

lemma str_nat_7: "str_nat 7 = [55]"
  by (simp add: str_nat.simps)

lemma document_extension_cases:
  "document_extension d =
     (let declared = (case first_file_name (attributes d) of None \<Rightarrow> [] | Some n \<Rightarrow> path_suffix n)
      in if declared \<noteq> [] then declared
         else if truthy (mime_type d)
         then (case map_of mime_to_ext (the (mime_type d)) of Some e \<Rightarrow> e | None \<Rightarrow> U ''.bin'')
         else [])"
  by (simp add: document_extension_def Let_def dict_get_def)

lemma document_claimed:
  "declared_extension (MessageMediaDocument (Some d)) \<noteq> [] \<or> truthy (mime_type d) \<Longrightarrow>
   file_extension_of (MessageMediaDocument (Some d)) = claimed_extension (MessageMediaDocument (Some d))"
  by (auto simp: file_extension_of_def document_extension_cases claimed_extension_def
      declared_extension_def mime_extension_def truthy_def Let_def split: option.splits)

lemma suffix_pdf: "path_suffix (U ''report.final.pdf'') = U ''.pdf''"
  by (simp add: path_suffix_def path_name_def rfind_def U_def Let_def)

text \<open>
  Claim C1, as amended. When a message carries media, downloading is enabled and the
  client's download succeeds, \<open>download_media_file\<close> returns \<^verbatim>\<open>media/msg_<id><ext>\<close>. The
  extension \<^verbatim>\<open><ext>\<close> is \<^verbatim>\<open>.jpg\<close> for a photo and empty for a document media without a
  document and for media of any other class. For a document it is the suffix of the first
  non-empty declared file name when that suffix is not empty; otherwise, when the MIME
  type is present and not empty, the entry of the MIME table, or \<^verbatim>\<open>.bin\<close> when the table
  has none; otherwise it is empty. So for a document with a file name suffix or a MIME
  type the extension is the one the specification words, and \<^verbatim>\<open>.bin\<close> is the default of
  the table lookup only.
\<close>

theorem download_media_file_name:
  assumes "msg_media message = Some m" and "download_media"
    and "truthy (snd (client message (media_dir @ U ''/'' @ media_filename m message_id) files))"
  shows "snd (download_media_file client download_media message media_dir message_id files)
           = Some (U ''media/'' @ U ''msg_'' @ str_int message_id @ file_extension_of m)
         \<and> file_extension_of MessageMediaPhoto = U ''.jpg''
         \<and> file_extension_of (MessageMediaOther n) = []
         \<and> file_extension_of (MessageMediaDocument None) = []
         \<and> file_extension_of (MessageMediaDocument (Some d)) =
             (if declared_extension (MessageMediaDocument (Some d)) \<noteq> []
              then declared_extension (MessageMediaDocument (Some d))
              else if truthy (mime_type d)
              then (case map_of mime_to_ext (the (mime_type d)) of
                      Some e \<Rightarrow> e | None \<Rightarrow> U ''.bin'')
              else [])
         \<and> (if declared_extension (MessageMediaDocument (Some d)) \<noteq> [] \<or> truthy (mime_type d)
             then file_extension_of (MessageMediaDocument (Some d))
                    = claimed_extension (MessageMediaDocument (Some d))
             else file_extension_of (MessageMediaDocument (Some d)) = [])"
proof -
  have name: "snd (download_media_file client download_media message media_dir message_id files)
           = Some (U ''media/'' @ U ''msg_'' @ str_int message_id @ file_extension_of m)"
    using assms
    by (simp add: download_media_file_def Let_def media_filename_def case_prod_beta)
  have doc: "file_extension_of (MessageMediaDocument (Some d)) =
             (if declared_extension (MessageMediaDocument (Some d)) \<noteq> []
              then declared_extension (MessageMediaDocument (Some d))
              else if truthy (mime_type d)
              then (case map_of mime_to_ext (the (mime_type d)) of
                      Some e \<Rightarrow> e | None \<Rightarrow> U ''.bin'')
              else [])"
    by (simp add: file_extension_of_def document_extension_cases declared_extension_def Let_def)
  have claimed: "(if declared_extension (MessageMediaDocument (Some d)) \<noteq> [] \<or> truthy (mime_type d)
             then file_extension_of (MessageMediaDocument (Some d))
                    = claimed_extension (MessageMediaDocument (Some d))
             else file_extension_of (MessageMediaDocument (Some d)) = [])"
    using document_claimed [of d] doc by (simp split: if_splits)
  show ?thesis
    using name doc claimed by (simp add: file_extension_of_def)
qed

text \<open>
  The theorem at message 7 with the document \<^verbatim>\<open>report.final.pdf\<close>: the file is
  \<^verbatim>\<open>media/msg_7.pdf\<close>.
\<close>

theorem download_media_file_name_witness:
  "snd (download_media_file download_ok True (bare_message (Some (MessageMediaDocument (Some pdf_document))))
          (U ''dir'') 7 no_files) = Some (U ''media/msg_7.pdf'')"
proof -
  have m: "msg_media (bare_message (Some (MessageMediaDocument (Some pdf_document))))
             = Some (MessageMediaDocument (Some pdf_document))"
    by (simp add: bare_message_def)
  have t: "truthy (snd (download_ok (bare_message (Some (MessageMediaDocument (Some pdf_document))))
             (U ''dir'' @ U ''/'' @ media_filename (MessageMediaDocument (Some pdf_document)) 7) no_files))"
    by (simp add: download_ok_def truthy_def U_def)
  have e: "file_extension_of (MessageMediaDocument (Some pdf_document)) = U ''.pdf''"
    by (simp add: file_extension_of_def document_extension_def pdf_document_def suffix_pdf Let_def)
       (simp add: U_def)
  show ?thesis
    using download_media_file_name [of "bare_message (Some (MessageMediaDocument (Some pdf_document)))"
        "MessageMediaDocument (Some pdf_document)" True download_ok "U ''dir''" 7 no_files, OF m _ t] e
    by (simp add: str_int_def str_nat_7) (simp add: U_def)
qed

text \<open>
  Claim C1 as stated fails. A message whose media is a contact carries media, has no
  declared file name and no MIME type: the claim names the file \<^verbatim>\<open>msg_7.bin\<close>, the code
  names it \<^verbatim>\<open>msg_7\<close>. For a photo the claim gives \<^verbatim>\<open>msg_7.bin\<close> and the code \<^verbatim>\<open>msg_7.jpg\<close>.
\<close>

theorem download_media_file_name_counterexample:
  "snd (download_media_file download_ok True
           (bare_message (Some (MessageMediaOther (U ''MessageMediaContact'')))) (U ''dir'') 7 no_files)
     = Some (U ''media/msg_7'')
   \<and> U ''msg_'' @ str_int 7 @ claimed_extension (MessageMediaOther (U ''MessageMediaContact''))
        = U ''msg_7.bin''
   \<and> snd (download_media_file download_ok True (bare_message (Some MessageMediaPhoto)) (U ''dir'') 7 no_files)
     = Some (U ''media/msg_7.jpg'')
   \<and> U ''msg_'' @ str_int 7 @ claimed_extension MessageMediaPhoto = U ''msg_7.bin''"
  by (simp add: download_media_file_def bare_message_def download_ok_def media_filename_def
      file_extension_of_def claimed_extension_def declared_extension_def mime_extension_def
      truthy_def str_int_def str_nat_7 U_def Let_def no_files_def)


section \<open>Properties of the markdown rendering\<close>

text \<open>
  Claim C4. \<open>format_message_as_markdown\<close> is a function of the message, the channel name
  and the optional media path alone: two renderings with equal inputs give the same
  text.
\<close>

theorem format_message_deterministic:
  "message1 = message2 \<Longrightarrow> channel_name1 = channel_name2 \<Longrightarrow> media_path1 = media_path2 \<Longrightarrow>
   format_message_as_markdown message1 channel_name1 media_path1
     = format_message_as_markdown message2 channel_name2 media_path2"
  by simp

theorem format_message_deterministic_witness:
  "format_message_as_markdown (bare_message (Some MessageMediaPhoto)) (U ''chan'') (Some (U ''media/msg_7.jpg''))
     = format_message_as_markdown (bare_message (Some MessageMediaPhoto)) (U ''chan'') (Some (U ''media/msg_7.jpg''))"
  by (rule format_message_deterministic) simp_all

lemma media_markup_empty: "(media_markup m media_path = []) = (m = MessageMediaDocument None)"
  by (cases m) (auto simp: media_markup_def U_def Let_def split: option.splits)

lemma startswith_append: "startswith p (p @ s)"
  by (induction p) auto

lemma media_markup_starts:
  "startswith (U ''**Media:** '') (media_markup m media_path) = (m \<noteq> MessageMediaDocument None)"
proof (cases m)
  case MessageMediaPhoto
  then show ?thesis by (simp add: media_markup_def startswith_append)
next
  case (MessageMediaDocument d)
  then show ?thesis
    by (cases d) (simp_all add: media_markup_def Let_def startswith_append, simp add: U_def)
next
  case (MessageMediaOther n)
  then show ?thesis by (simp add: media_markup_def startswith_append)
qed

text \<open>
  Claim C8, as amended. The markdown of a message is, in this order: the header line with
  the message id; the Channel, Sender, Date and Message ID fields; the content section,
  exactly when the message has a text that is not empty; the media markup of the
  message's media, when it has media; the forwarded annotation and the reply annotation,
  when present; the separator. The media markup starts with \<^verbatim>\<open>**Media:**\<close> for every media
  but a document media without a document, for which it is empty.
\<close>

theorem format_message_field_order:
  "format_message_as_markdown message channel_name media_path =
     U ''## Message '' @ str_int (msg_id message) @ U ''\<newline>\<newline>''
     @ U ''**Channel:** '' @ channel_name @ U ''\<newline>''
     @ U ''**Sender:** '' @ sender_label (msg_sender message) @ U ''\<newline>''
     @ U ''**Date:** '' @ strftime_datetime (msg_date message) @ U ''\<newline>''
     @ U ''**Message ID:** '' @ str_int (msg_id message) @ U ''\<newline>\<newline>''
     @ (if truthy (msg_text message)
        then U ''### Content\<newline>\<newline>'' @ py_strip (the (msg_text message)) @ U ''\<newline>\<newline>''
        else [])
     @ (case msg_media message of None \<Rightarrow> [] | Some m \<Rightarrow> media_markup m media_path)
     @ (if msg_forward message then U ''**Forwarded Message**\<newline>\<newline>'' else [])
     @ (case msg_reply_to message of
          None \<Rightarrow> []
        | Some reply_to_msg_id \<Rightarrow>
            U ''**Reply to:** Message '' @ str_opt_int reply_to_msg_id @ U ''\<newline>\<newline>'')
     @ U ''---\<newline>\<newline>''
   \<and> startswith (U ''**Media:** '') (media_markup m media_path) = (m \<noteq> MessageMediaDocument None)
   \<and> (media_markup m media_path = []) = (m = MessageMediaDocument None)"
  by (simp add: format_message_as_markdown_def Let_def media_markup_starts media_markup_empty
      split: option.splits)

lemma str_nat_2025: "str_nat 2025 = [50, 48, 50, 53]"
  by (simp add: str_nat.simps)

lemma str_nat_small: "str_nat 3 = [51]" "str_nat 9 = [57]" "str_nat 5 = [53]" "str_nat 0 = [48]"
  by (simp_all add: str_nat.simps)

lemma example_timestamp: "strftime_datetime example_date = U ''2025-03-07 09:05:00''"
  by (simp add: strftime_datetime_def strftime_date_def example_date_def zfill_def
      str_nat_2025 str_nat_small str_nat_7) (simp add: U_def)

text \<open>
  Claim C8 as stated fails. Message 7 carries a document media without a document: it has
  media, and its markdown goes from the Message ID field straight to the separator, with
  no media markup.
\<close>

theorem format_message_media_counterexample:
  "msg_media (bare_message (Some (MessageMediaDocument None))) \<noteq> None
   \<and> format_message_as_markdown (bare_message (Some (MessageMediaDocument None))) (U ''chan'') None
       = U ''## Message 7\<newline>\<newline>**Channel:** chan\<newline>**Sender:** Unknown\<newline>**Date:** 2025-03-07 09:05:00\<newline>**Message ID:** 7\<newline>\<newline>---\<newline>\<newline>''
   \<and> \<not> contains (U ''**Media:**'')
         (format_message_as_markdown (bare_message (Some (MessageMediaDocument None))) (U ''chan'') None)"
proof -
  have r: "format_message_as_markdown (bare_message (Some (MessageMediaDocument None))) (U ''chan'') None
       = U ''## Message 7\<newline>\<newline>**Channel:** chan\<newline>**Sender:** Unknown\<newline>**Date:** 2025-03-07 09:05:00\<newline>**Message ID:** 7\<newline>\<newline>---\<newline>\<newline>''"
    by (simp add: format_message_as_markdown_def bare_message_def Let_def example_timestamp
        sender_label_def truthy_def media_markup_def str_int_def str_nat_7)
       (simp add: U_def)
  have c: "\<not> contains (U ''**Media:**'')
     (U ''## Message 7\<newline>\<newline>**Channel:** chan\<newline>**Sender:** Unknown\<newline>**Date:** 2025-03-07 09:05:00\<newline>**Message ID:** 7\<newline>\<newline>---\<newline>\<newline>'')"
    by (simp add: U_def)
  show ?thesis
    using r c by (simp add: bare_message_def)
qed

section \<open>Properties of the settings store\<close>

lemma obj_get_Some: "obj_get j k d = Some v \<Longrightarrow> \<exists>kvs. j = JObj kvs \<and> v = dict_get kvs k d"
  by (cases j) (auto simp: obj_get_def)

lemma obj_set_Some: "obj_set j k v = Some j' \<Longrightarrow> \<exists>kvs. j = JObj kvs \<and> j' = JObj (AList.update k v kvs)"
  by (cases j) (auto simp: obj_set_def)

lemma str_strip_Some: "str_strip j = Some s \<Longrightarrow> \<exists>r. j = JStr r \<and> s = py_strip r"
  by (cases j) (auto simp: str_strip_def)

lemma list_append_Some: "list_append j x = Some j' \<Longrightarrow> \<exists>xs. j = JArr xs \<and> j' = JArr (xs @ [x])"
  by (cases j) (auto simp: list_append_def)

lemma py_strip_Nil: "py_strip [] = []"
  by (simp add: py_strip_def)

lemma dict_get_present:
  "dict_get kvs k (JStr []) = JStr r \<Longrightarrow> py_strip r \<noteq> [] \<Longrightarrow> map_of kvs k = Some (JStr r)"
  by (auto simp: dict_get_def py_strip_Nil split: option.splits)

lemma add_channel_success:
  assumes "api_add_channel data file = (Success msg channel, file')"
  shows "\<exists>kvs xs ri rn.
           load_config file = Some (JObj kvs)
         \<and> dict_get kvs (U ''channels'') (JArr []) = JArr xs
         \<and> data_value data (U ''identifier'') = Some (JStr ri)
         \<and> data_value data (U ''name'') = Some (JStr rn)
         \<and> channel = new_channel (py_strip ri) (py_strip rn)
                       (case data_value data (U ''enabled'') of None \<Rightarrow> JBool True | Some v \<Rightarrow> v)
         \<and> file' = Document (JObj (AList.update (U ''channels'') (JArr (xs @ [channel])) kvs))"
proof -
  from assms have a: "add_channel data file = Some (Success msg channel, file')"
    by (simp add: api_add_channel_def split: option.splits)
  then obtain raw_i ident raw_n name enabled config channels appended config' where
    1: "obj_get data (U ''identifier'') (JStr []) = Some raw_i" and
    2: "str_strip raw_i = Some ident" and
    3: "obj_get data (U ''name'') (JStr []) = Some raw_n" and
    4: "str_strip raw_n = Some name" and
    5: "obj_get data (U ''enabled'') (JBool True) = Some enabled" and
    6: "ident \<noteq> []" "name \<noteq> []" and
    7: "load_config file = Some config" and
    8: "obj_get config (U ''channels'') (JArr []) = Some channels" and
    9: "list_append channels (new_channel ident name enabled) = Some appended" and
    10: "obj_set config (U ''channels'') appended = Some config'" and
    11: "channel = new_channel ident name enabled" "file' = save_config config'"
    unfolding add_channel_def
    by (auto simp: bind_eq_Some_conv split: if_splits)
  from 1 obtain dk where dk: "data = JObj dk" "raw_i = dict_get dk (U ''identifier'') (JStr [])"
    using obj_get_Some by blast
  from 2 obtain ri where ri: "raw_i = JStr ri" "ident = py_strip ri" using str_strip_Some by blast
  from 3 dk have rn0: "raw_n = dict_get dk (U ''name'') (JStr [])" by (simp add: obj_get_def)
  from 4 obtain rn where rn: "raw_n = JStr rn" "name = py_strip rn" using str_strip_Some by blast
  from 5 dk have en: "enabled = dict_get dk (U ''enabled'') (JBool True)" by (simp add: obj_get_def)
  from 8 obtain kvs where kvs: "config = JObj kvs" "channels = dict_get kvs (U ''channels'') (JArr [])"
    using obj_get_Some by blast
  from 9 obtain xs where xs: "channels = JArr xs" "appended = JArr (xs @ [new_channel ident name enabled])"
    using list_append_Some by blast
  from 10 kvs have c': "config' = JObj (AList.update (U ''channels'') appended kvs)"
    by (simp add: obj_set_def)
  have di: "data_value data (U ''identifier'') = Some (JStr ri)"
    using dk ri 6 dict_get_present [of dk "U ''identifier''" ri] by (simp add: data_value_def)
  have dn: "data_value data (U ''name'') = Some (JStr rn)"
    using dk rn rn0 6 dict_get_present [of dk "U ''name''" rn] by (simp add: data_value_def)
  have de: "enabled = (case data_value data (U ''enabled'') of None \<Rightarrow> JBool True | Some v \<Rightarrow> v)"
    using dk en by (simp add: data_value_def dict_get_def)
  have ch: "dict_get kvs (U ''channels'') (JArr []) = JArr xs"
    using kvs(2) xs(1) by simp
  have "load_config file = Some (JObj kvs)
         \<and> dict_get kvs (U ''channels'') (JArr []) = JArr xs
         \<and> data_value data (U ''identifier'') = Some (JStr ri)
         \<and> data_value data (U ''name'') = Some (JStr rn)
         \<and> channel = new_channel (py_strip ri) (py_strip rn)
                       (case data_value data (U ''enabled'') of None \<Rightarrow> JBool True | Some v \<Rightarrow> v)
         \<and> file' = Document (JObj (AList.update (U ''channels'') (JArr (xs @ [channel])) kvs))"
    using 7 kvs(1) ch xs(2) c' 11 di dn de ri(2) rn(2) by (simp add: save_config_def)
  then show ?thesis by blast
qed

lemma json_len_JArr: "json_len (JArr xs) = Some (length xs)"
  by (simp add: json_len_def)

lemma update_field_JArr:
  assumes "update_field key stripped data i (JArr xs) = Some channels'" and "i < length xs"
  shows "channels' = JArr (xs[i := set_supplied key stripped data (xs ! i)])"
proof -
  from assms(1) obtain present where p: "py_in key data = Some present"
    by (auto simp: update_field_def bind_eq_Some_conv)
  show ?thesis
  proof (cases present)
    case False
    with assms p have c: "channels' = JArr xs"
      by (simp add: update_field_def)
    have "data_value data key = None"
      using p False by (cases data) (auto simp: py_in_def data_value_def)
    then show ?thesis using c by (simp add: set_supplied_def)
  next
    case True
    with assms p obtain raw v where
      r: "data_value data key = Some raw" and
      v: "(if stripped then map_option JStr (str_strip raw) else Some raw) = Some v" and
      s: "set_entry_field (JArr xs) i key v = Some channels'"
      by (auto simp: update_field_def bind_eq_Some_conv)
    from s assms(2) obtain e where e: "xs ! i = JObj e"
      and c: "channels' = JArr (xs[i := JObj (AList.update key v e)])"
      by (cases "xs ! i") (auto simp: set_entry_field_def)
    show ?thesis using r v e c by (simp add: set_supplied_def)
  qed
qed

lemma update_field_other:
  assumes "update_field key stripped data i channels = Some channels'"
    and "\<And>xs. channels \<noteq> JArr xs"
  shows "channels' = channels"
proof -
  from assms(1) obtain present where p: "py_in key data = Some present"
    by (auto simp: update_field_def bind_eq_Some_conv)
  have "set_entry_field channels i key v = None" for v
    using assms(2) by (cases channels) (auto simp: set_entry_field_def)
  with assms(1) p show ?thesis
    by (cases present) (auto simp: update_field_def bind_eq_Some_conv)
qed

lemma update_channel_success:
  assumes "api_update_channel i data file = (Success msg channel, file')"
  shows "\<exists>kvs. load_config file = Some (JObj kvs) \<and> 0 \<le> i
         \<and> (case dict_get kvs (U ''channels'') (JArr []) of
              JArr xs \<Rightarrow>
                nat i < length xs \<and> channel = updated_entry data (xs ! nat i)
                \<and> file' = Document (JObj (AList.update (U ''channels'')
                             (JArr (xs[nat i := channel])) kvs))
            | other \<Rightarrow> file' = Document (JObj (AList.update (U ''channels'') other kvs)))"
proof -
  from assms have a: "update_channel i data file = Some (Success msg channel, file')"
    by (simp add: api_update_channel_def split: option.splits)
  then obtain config channels n channels1 channels2 channels3 config' where
    1: "load_config file = Some config" and
    2: "obj_get config (U ''channels'') (JArr []) = Some channels" and
    3: "json_len channels = Some n" and
    4: "0 \<le> i" "i < int n" and
    5: "update_field (U ''identifier'') True data (nat i) channels = Some channels1" and
    6: "update_field (U ''name'') True data (nat i) channels1 = Some channels2" and
    7: "update_field (U ''enabled'') False data (nat i) channels2 = Some channels3" and
    8: "obj_set config (U ''channels'') channels3 = Some config'" and
    9: "json_index channels3 (nat i) = Some channel" "file' = save_config config'"
    unfolding update_channel_def
    by (auto simp: bind_eq_Some_conv split: if_splits option.splits)
  from 2 obtain kvs where kvs: "config = JObj kvs" "channels = dict_get kvs (U ''channels'') (JArr [])"
    using obj_get_Some by blast
  from 8 kvs have c': "config' = JObj (AList.update (U ''channels'') channels3 kvs)"
    by (simp add: obj_set_def)
  have "case channels of
          JArr xs \<Rightarrow>
            nat i < length xs \<and> channel = updated_entry data (xs ! nat i)
            \<and> file' = Document (JObj (AList.update (U ''channels'')
                         (JArr (xs[nat i := channel])) kvs))
        | other \<Rightarrow> file' = Document (JObj (AList.update (U ''channels'') other kvs))"
  proof (cases "\<exists>xs. channels = JArr xs")
    case True
    then obtain xs where xs: "channels = JArr xs" by blast
    with 3 4 have lt: "nat i < length xs" by (auto simp: json_len_def)
    from update_field_JArr [OF 5 [unfolded xs] lt]
    have c1: "channels1 = JArr (xs[nat i := set_supplied (U ''identifier'') True data (xs ! nat i)])" .
    from update_field_JArr [OF 6 [unfolded c1]] lt
    have c2: "channels2 = JArr (xs[nat i := set_supplied (U ''name'') True data
                (set_supplied (U ''identifier'') True data (xs ! nat i))])"
      by simp
    from update_field_JArr [OF 7 [unfolded c2]] lt
    have c3: "channels3 = JArr (xs[nat i := updated_entry data (xs ! nat i)])"
      by (simp add: updated_entry_def)
    from 9(1) c3 lt have "channel = updated_entry data (xs ! nat i)"
      by (simp add: json_index_def)
    with xs lt c3 c' 9(2) show ?thesis by (simp add: save_config_def)
  next
    case False
    then have n: "\<And>xs. channels \<noteq> JArr xs" by blast
    from update_field_other [OF 5 n] have c1: "channels1 = channels" .
    from update_field_other [OF 6 [unfolded c1] n] have c2: "channels2 = channels" .
    from update_field_other [OF 7 [unfolded c2] n] have c3: "channels3 = channels" .
    from n c3 c' 9(2) show ?thesis by (cases channels) (auto simp: save_config_def)
  qed
  with 1 kvs 4 show ?thesis by auto
qed

lemma delete_channel_in_range:
  assumes "load_config file = Some (JObj kvs)"
    and "dict_get kvs (U ''channels'') (JArr []) = JArr c"
    and "0 \<le> i" and "i < int (length c)"
  shows "api_delete_channel i file =
           (Success (U ''Channel deleted successfully'') (c ! nat i),
            Document (JObj (AList.update (U ''channels'')
              (JArr (take (nat i) c @ drop (Suc (nat i)) c)) kvs)))"
  using assms
  by (simp add: api_delete_channel_def delete_channel_def obj_get_def json_len_def list_pop_def
      obj_set_def save_config_def)

lemma delete_channel_out_of_range:
  assumes "load_config file = Some (JObj kvs)"
    and "dict_get kvs (U ''channels'') (JArr []) = JArr c"
    and "\<not> (0 \<le> i \<and> i < int (length c))"
  shows "api_delete_channel i file = (Failure (U ''Channel not found''), file)"
  using assms
  by (auto simp: api_delete_channel_def delete_channel_def obj_get_def json_len_def)

lemma delete_channel_success:
  assumes "api_delete_channel i file = (Success msg channel, file')"
  shows "\<exists>kvs xs. load_config file = Some (JObj kvs)
         \<and> dict_get kvs (U ''channels'') (JArr []) = JArr xs
         \<and> 0 \<le> i \<and> nat i < length xs \<and> channel = xs ! nat i
         \<and> file' = Document (JObj (AList.update (U ''channels'')
                      (JArr (take (nat i) xs @ drop (Suc (nat i)) xs)) kvs))"
proof -
  from assms have a: "delete_channel i file = Some (Success msg channel, file')"
    by (simp add: api_delete_channel_def split: option.splits)
  then obtain config channels n channels' config' where
    1: "load_config file = Some config" and
    2: "obj_get config (U ''channels'') (JArr []) = Some channels" and
    3: "json_len channels = Some n" and
    4: "0 \<le> i" "i < int n" and
    5: "list_pop channels (nat i) = Some (channel, channels')" and
    6: "obj_set config (U ''channels'') channels' = Some config'" and
    7: "file' = save_config config'"
    unfolding delete_channel_def
    by (auto simp: bind_eq_Some_conv split: if_splits)
  from 2 obtain kvs where kvs: "config = JObj kvs" "channels = dict_get kvs (U ''channels'') (JArr [])"
    using obj_get_Some by blast
  from 5 obtain xs where xs: "channels = JArr xs" "nat i < length xs" "channel = xs ! nat i"
    "channels' = JArr (take (nat i) xs @ drop (Suc (nat i)) xs)"
    by (cases channels) (auto simp: list_pop_def split: if_splits)
  from 6 kvs have c': "config' = JObj (AList.update (U ''channels'') channels' kvs)"
    by (simp add: obj_set_def)
  have "load_config file = Some (JObj kvs)
         \<and> dict_get kvs (U ''channels'') (JArr []) = JArr xs
         \<and> 0 \<le> i \<and> nat i < length xs \<and> channel = xs ! nat i
         \<and> file' = Document (JObj (AList.update (U ''channels'')
                      (JArr (take (nat i) xs @ drop (Suc (nat i)) xs)) kvs))"
    using 1 kvs xs 4 c' 7 by (simp add: save_config_def)
  then show ?thesis by blast
qed

lemma load_after_update:
  "load_config (Document (JObj (AList.update k v kvs))) = Some (JObj (AList.update k v kvs))
   \<and> config_channels (Document (JObj (AList.update (U ''channels'') v kvs))) = Some v
   \<and> (k' \<noteq> k \<longrightarrow> config_field (Document (JObj (AList.update k v kvs))) k' = map_of kvs k')"
  by (simp add: load_config_def config_channels_def config_field_def obj_get_def dict_get_def
      update_conv')

lemma config_field_loaded: "load_config file = Some (JObj kvs) \<Longrightarrow> config_field file k = map_of kvs k"
  by (simp add: config_field_def)

text \<open>
  Claim C5. After a successful add, update by index or delete by index, loading the
  configuration back gives the document that was there before with only its channel
  list changed: the new entry (the stripped identifier and name and the enabled flag of
  the request) appended, the entry at the index replaced by the entry the request
  describes, or the entry at the index removed. Every other field of the configuration
  reads as before. (An update can also succeed when the stored \<^verbatim>\<open>channels\<close> value is not a
  list, namely a string, and the request names no field; the value is then kept.)
\<close>

theorem config_channel_roundtrip:
  "(api_add_channel data cfg = (Success msg channel, cfg') \<longrightarrow>
      (\<exists>kvs xs ri rn.
          load_config cfg = Some (JObj kvs)
        \<and> dict_get kvs (U ''channels'') (JArr []) = JArr xs
        \<and> data_value data (U ''identifier'') = Some (JStr ri)
        \<and> data_value data (U ''name'') = Some (JStr rn)
        \<and> channel = new_channel (py_strip ri) (py_strip rn)
                      (case data_value data (U ''enabled'') of None \<Rightarrow> JBool True | Some v \<Rightarrow> v)
        \<and> load_config cfg' = Some (JObj (AList.update (U ''channels'') (JArr (xs @ [channel])) kvs))
        \<and> config_channels cfg' = Some (JArr (xs @ [channel]))
        \<and> (\<forall>k. k \<noteq> U ''channels'' \<longrightarrow> config_field cfg' k = config_field cfg k)))
   \<and> (api_update_channel i data cfg = (Success msg channel, cfg') \<longrightarrow>
      (\<exists>kvs.
          load_config cfg = Some (JObj kvs) \<and> 0 \<le> i
        \<and> (case dict_get kvs (U ''channels'') (JArr []) of
              JArr xs \<Rightarrow>
                nat i < length xs \<and> channel = updated_entry data (xs ! nat i)
                \<and> load_config cfg' = Some (JObj (AList.update (U ''channels'')
                                                  (JArr (xs[nat i := channel])) kvs))
                \<and> config_channels cfg' = Some (JArr (xs[nat i := channel]))
            | other \<Rightarrow> config_channels cfg' = Some other)
        \<and> (\<forall>k. k \<noteq> U ''channels'' \<longrightarrow> config_field cfg' k = config_field cfg k)))
   \<and> (api_delete_channel i cfg = (Success msg channel, cfg') \<longrightarrow>
      (\<exists>kvs xs.
          load_config cfg = Some (JObj kvs)
        \<and> dict_get kvs (U ''channels'') (JArr []) = JArr xs
        \<and> 0 \<le> i \<and> nat i < length xs \<and> channel = xs ! nat i
        \<and> load_config cfg' = Some (JObj (AList.update (U ''channels'')
                                          (JArr (take (nat i) xs @ drop (Suc (nat i)) xs)) kvs))
        \<and> config_channels cfg' = Some (JArr (take (nat i) xs @ drop (Suc (nat i)) xs))
        \<and> (\<forall>k. k \<noteq> U ''channels'' \<longrightarrow> config_field cfg' k = config_field cfg k)))"
proof (intro conjI impI)
  assume "api_add_channel data cfg = (Success msg channel, cfg')"
  from add_channel_success [OF this] obtain kvs xs ri rn where
    h: "load_config cfg = Some (JObj kvs)"
       "dict_get kvs (U ''channels'') (JArr []) = JArr xs"
       "data_value data (U ''identifier'') = Some (JStr ri)"
       "data_value data (U ''name'') = Some (JStr rn)"
       "channel = new_channel (py_strip ri) (py_strip rn)
                      (case data_value data (U ''enabled'') of None \<Rightarrow> JBool True | Some v \<Rightarrow> v)"
       "cfg' = Document (JObj (AList.update (U ''channels'') (JArr (xs @ [channel])) kvs))"
    by blast
  have "load_config cfg' = Some (JObj (AList.update (U ''channels'') (JArr (xs @ [channel])) kvs))
        \<and> config_channels cfg' = Some (JArr (xs @ [channel]))
        \<and> (\<forall>k. k \<noteq> U ''channels'' \<longrightarrow> config_field cfg' k = config_field cfg k)"
    using h(6) load_after_update [of "U ''channels''" "JArr (xs @ [channel])" kvs]
      config_field_loaded [OF h(1)] by simp
  with h(1-5) show "\<exists>kvs xs ri rn.
          load_config cfg = Some (JObj kvs)
        \<and> dict_get kvs (U ''channels'') (JArr []) = JArr xs
        \<and> data_value data (U ''identifier'') = Some (JStr ri)
        \<and> data_value data (U ''name'') = Some (JStr rn)
        \<and> channel = new_channel (py_strip ri) (py_strip rn)
                      (case data_value data (U ''enabled'') of None \<Rightarrow> JBool True | Some v \<Rightarrow> v)
        \<and> load_config cfg' = Some (JObj (AList.update (U ''channels'') (JArr (xs @ [channel])) kvs))
        \<and> config_channels cfg' = Some (JArr (xs @ [channel]))
        \<and> (\<forall>k. k \<noteq> U ''channels'' \<longrightarrow> config_field cfg' k = config_field cfg k)"
    by blast
next
  assume "api_update_channel i data cfg = (Success msg channel, cfg')"
  from update_channel_success [OF this] obtain kvs where
    h: "load_config cfg = Some (JObj kvs)" "0 \<le> i"
       "case dict_get kvs (U ''channels'') (JArr []) of
              JArr xs \<Rightarrow>
                nat i < length xs \<and> channel = updated_entry data (xs ! nat i)
                \<and> cfg' = Document (JObj (AList.update (U ''channels'')
                             (JArr (xs[nat i := channel])) kvs))
            | other \<Rightarrow> cfg' = Document (JObj (AList.update (U ''channels'') other kvs))"
    by blast
  have f: "\<exists>v. cfg' = Document (JObj (AList.update (U ''channels'') v kvs))"
    using h(3) by (cases "dict_get kvs (U ''channels'') (JArr [])") auto
  have fields: "\<forall>k. k \<noteq> U ''channels'' \<longrightarrow> config_field cfg' k = config_field cfg k"
    using f load_after_update [of "U ''channels''" _ kvs] config_field_loaded [OF h(1)] by auto
  have "case dict_get kvs (U ''channels'') (JArr []) of
              JArr xs \<Rightarrow>
                nat i < length xs \<and> channel = updated_entry data (xs ! nat i)
                \<and> load_config cfg' = Some (JObj (AList.update (U ''channels'')
                                                  (JArr (xs[nat i := channel])) kvs))
                \<and> config_channels cfg' = Some (JArr (xs[nat i := channel]))
            | other \<Rightarrow> config_channels cfg' = Some other"
    using h(3) load_after_update [of "U ''channels''" _ kvs]
    by (cases "dict_get kvs (U ''channels'') (JArr [])") auto
  with h(1,2) fields show "\<exists>kvs.
          load_config cfg = Some (JObj kvs) \<and> 0 \<le> i
        \<and> (case dict_get kvs (U ''channels'') (JArr []) of
              JArr xs \<Rightarrow>
                nat i < length xs \<and> channel = updated_entry data (xs ! nat i)
                \<and> load_config cfg' = Some (JObj (AList.update (U ''channels'')
                                                  (JArr (xs[nat i := channel])) kvs))
                \<and> config_channels cfg' = Some (JArr (xs[nat i := channel]))
            | other \<Rightarrow> config_channels cfg' = Some other)
        \<and> (\<forall>k. k \<noteq> U ''channels'' \<longrightarrow> config_field cfg' k = config_field cfg k)"
    by blast
next
  assume "api_delete_channel i cfg = (Success msg channel, cfg')"
  from delete_channel_success [OF this] obtain kvs xs where
    h: "load_config cfg = Some (JObj kvs)"
       "dict_get kvs (U ''channels'') (JArr []) = JArr xs"
       "0 \<le> i" "nat i < length xs" "channel = xs ! nat i"
       "cfg' = Document (JObj (AList.update (U ''channels'')
                      (JArr (take (nat i) xs @ drop (Suc (nat i)) xs)) kvs))"
    by blast
  have "load_config cfg' = Some (JObj (AList.update (U ''channels'')
                                          (JArr (take (nat i) xs @ drop (Suc (nat i)) xs)) kvs))
        \<and> config_channels cfg' = Some (JArr (take (nat i) xs @ drop (Suc (nat i)) xs))
        \<and> (\<forall>k. k \<noteq> U ''channels'' \<longrightarrow> config_field cfg' k = config_field cfg k)"
    using h(6) load_after_update [of "U ''channels''" "JArr (take (nat i) xs @ drop (Suc (nat i)) xs)" kvs]
      config_field_loaded [OF h(1)] by simp
  with h(1-5) show "\<exists>kvs xs.
          load_config cfg = Some (JObj kvs)
        \<and> dict_get kvs (U ''channels'') (JArr []) = JArr xs
        \<and> 0 \<le> i \<and> nat i < length xs \<and> channel = xs ! nat i
        \<and> load_config cfg' = Some (JObj (AList.update (U ''channels'')
                                          (JArr (take (nat i) xs @ drop (Suc (nat i)) xs)) kvs))
        \<and> config_channels cfg' = Some (JArr (take (nat i) xs @ drop (Suc (nat i)) xs))
        \<and> (\<forall>k. k \<noteq> U ''channels'' \<longrightarrow> config_field cfg' k = config_field cfg k)"
    by blast
qed

lemma strip_examples: "py_strip (U '' @c '') = U ''@c''" "py_strip (U ''C'') = U ''C''"
  "py_strip (U '' Z '') = U ''Z''"
  by (simp_all add: py_strip_def is_space_def U_def)

lemma example_channels:
  "dict_get example_config (U ''channels'') (JArr []) = JArr [channel_a, channel_b]"
  by (simp add: example_config_def dict_get_def U_def)

lemma example_add:
  "api_add_channel add_request (Document (JObj example_config)) =
     (Success (U ''Channel added successfully'') (new_channel (U ''@c'') (U ''C'') (JBool True)),
      Document (JObj (AList.update (U ''channels'')
        (JArr [channel_a, channel_b, new_channel (U ''@c'') (U ''C'') (JBool True)]) example_config)))"
proof -
  have e: "channel_exists (U ''@c'') (U ''C'') [channel_a, channel_b] = Some False"
    by (simp add: channel_a_def channel_b_def new_channel_def dict_get_def U_def)
  have s: "startswith (U ''@'') (U ''@c'')" "U ''@c'' \<noteq> []" "U ''C'' \<noteq> []"
    by (simp_all add: U_def)
  have g: "obj_get add_request (U ''identifier'') (JStr []) = Some (JStr (U '' @c ''))"
    "obj_get add_request (U ''name'') (JStr []) = Some (JStr (U ''C''))"
    "obj_get add_request (U ''enabled'') (JBool True) = Some (JBool True)"
    by (simp_all add: add_request_def obj_get_def dict_get_def U_def)
  have oc: "obj_get (JObj example_config) (U ''channels'') (JArr []) = Some (JArr [channel_a, channel_b])"
    by (simp add: obj_get_def example_channels)
  show ?thesis
    by (simp add: api_add_channel_def add_channel_def g str_strip_def strip_examples s
        load_config_def oc json_iter_def e list_append_def obj_set_def save_config_def
        del: channel_exists.simps)
qed

lemma example_update:
  "\<exists>channel file'. api_update_channel 1 rename_request (Document (JObj example_config)) =
     (Success (U ''Channel updated successfully'') channel, file')"
proof -
  have p: "py_in (U ''identifier'') rename_request = Some False"
    "py_in (U ''name'') rename_request = Some True"
    "py_in (U ''enabled'') rename_request = Some False"
    by (simp_all add: py_in_def rename_request_def U_def)
  have d: "data_value rename_request (U ''name'') = Some (JStr (U '' Z ''))"
    by (simp add: data_value_def rename_request_def)
  show ?thesis
    by (simp add: api_update_channel_def update_channel_def load_config_def obj_get_def
        example_channels json_len_def update_field_def p d str_strip_def strip_examples
        set_entry_field_def channel_b_def new_channel_def obj_set_def json_index_def)
qed

lemma example_updated:
  "updated_entry rename_request channel_b = new_channel (U ''https://t.me/b'') (U ''Z'') (JBool False)"
  by (simp add: updated_entry_def set_supplied_def data_value_def rename_request_def
      channel_b_def new_channel_def str_strip_def strip_examples) (simp add: U_def)

lemma example_delete:
  "\<exists>channel file'. api_delete_channel 0 (Document (JObj example_config)) =
     (Success (U ''Channel deleted successfully'') channel, file')"
  by (simp add: api_delete_channel_def delete_channel_def load_config_def obj_get_def
      example_channels json_len_def list_pop_def obj_set_def)

text \<open>
  The theorem at the example configuration: adding \<^verbatim>\<open>@c\<close>, renaming the second channel and
  deleting the first one, each read back from the file.
\<close>

theorem config_channel_roundtrip_witness:
  "config_channels (snd (api_add_channel add_request (Document (JObj example_config))))
     = Some (JArr [channel_a, channel_b, new_channel (U ''@c'') (U ''C'') (JBool True)])
   \<and> config_channels (snd (api_update_channel 1 rename_request (Document (JObj example_config))))
     = Some (JArr [channel_a, new_channel (U ''https://t.me/b'') (U ''Z'') (JBool False)])
   \<and> config_channels (snd (api_delete_channel 0 (Document (JObj example_config))))
     = Some (JArr [channel_b])"
proof -
  have l: "load_config (Document (JObj example_config)) = Some (JObj example_config)"
    by (simp add: load_config_def)
  obtain c1 f1 where a: "api_add_channel add_request (Document (JObj example_config))
      = (Success (U ''Channel added successfully'') c1, f1)"
    and c1: "c1 = new_channel (U ''@c'') (U ''C'') (JBool True)"
    using example_add by blast
  obtain c2 f2 where u: "api_update_channel 1 rename_request (Document (JObj example_config))
      = (Success (U ''Channel updated successfully'') c2, f2)"
    using example_update by blast
  obtain c3 f3 where d: "api_delete_channel 0 (Document (JObj example_config))
      = (Success (U ''Channel deleted successfully'') c3, f3)"
    using example_delete by blast
  have 1: "config_channels f1 = Some (JArr ([channel_a, channel_b] @ [c1]))"
    using config_channel_roundtrip [where data = add_request
        and cfg = "Document (JObj example_config)"
        and msg = "U ''Channel added successfully''" and channel = c1 and cfg' = f1]
      a l example_channels by auto
  have 2: "config_channels f2 = Some (JArr ([channel_a, channel_b][1 := updated_entry rename_request channel_b]))"
    using config_channel_roundtrip [where data = rename_request and i = 1
        and cfg = "Document (JObj example_config)"
        and msg = "U ''Channel updated successfully''" and channel = c2 and cfg' = f2]
      u l example_channels by auto
  have 3: "config_channels f3 = Some (JArr (take 0 [channel_a, channel_b] @ drop (Suc 0) [channel_a, channel_b]))"
    using config_channel_roundtrip [where i = 0
        and cfg = "Document (JObj example_config)"
        and msg = "U ''Channel deleted successfully''" and channel = c3 and cfg' = f3]
      d l example_channels by auto
  show ?thesis
    using 1 2 3 a u d c1 by (simp add: example_updated)
qed

text \<open>
  Claim C6. For a configuration whose channel list is \<open>c\<close>: deleting at an index \<open>i\<close> with
  \<open>0 \<le> i < length c\<close> succeeds, returns the entry at \<open>i\<close> and leaves the list \<open>c\<close> without
  that entry, so that the entries before \<open>i\<close> keep their index and every entry formerly at
  an index \<open>j > i\<close> is at \<open>j - 1\<close>; deleting at any other index fails with
  \<^verbatim>\<open>Channel not found\<close> and leaves the file, and so the channel list, as it was.
\<close>

theorem delete_channel_shifts:
  assumes "load_config file = Some (JObj kvs)"
    and "dict_get kvs (U ''channels'') (JArr []) = JArr c"
  shows "(0 \<le> i \<and> i < int (length c) \<longrightarrow>
            fst (api_delete_channel i file) = Success (U ''Channel deleted successfully'') (c ! nat i)
          \<and> config_channels (snd (api_delete_channel i file))
              = Some (JArr (take (nat i) c @ drop (Suc (nat i)) c))
          \<and> length (take (nat i) c @ drop (Suc (nat i)) c) = length c - 1
          \<and> (\<forall>j. j < nat i \<longrightarrow> (take (nat i) c @ drop (Suc (nat i)) c) ! j = c ! j)
          \<and> (\<forall>j. nat i < j \<and> j < length c \<longrightarrow>
                 (take (nat i) c @ drop (Suc (nat i)) c) ! (j - 1) = c ! j))
       \<and> (\<not> (0 \<le> i \<and> i < int (length c)) \<longrightarrow>
            api_delete_channel i file = (Failure (U ''Channel not found''), file)
          \<and> config_channels (snd (api_delete_channel i file)) = Some (JArr c))"
proof (intro conjI impI allI)
  assume r: "0 \<le> i \<and> i < int (length c)"
  then have lt: "nat i < length c" by auto
  note d = delete_channel_in_range [OF assms, of i]
  show "fst (api_delete_channel i file) = Success (U ''Channel deleted successfully'') (c ! nat i)"
    using d r by simp
  show "config_channels (snd (api_delete_channel i file))
              = Some (JArr (take (nat i) c @ drop (Suc (nat i)) c))"
    using d r load_after_update [of "U ''channels''" _ kvs] by simp
  show "length (take (nat i) c @ drop (Suc (nat i)) c) = length c - 1"
    using lt by simp
  show "(take (nat i) c @ drop (Suc (nat i)) c) ! j = c ! j" if "j < nat i" for j
    using that lt by (simp add: nth_append)
  show "(take (nat i) c @ drop (Suc (nat i)) c) ! (j - 1) = c ! j" if "nat i < j \<and> j < length c" for j
  proof -
    from that lt have "\<not> j - 1 < nat i" "Suc (nat i) + (j - 1 - nat i) = j" by auto
    with lt show ?thesis by (simp add: nth_append min_def)
  qed
next
  assume r: "\<not> (0 \<le> i \<and> i < int (length c))"
  note d = delete_channel_out_of_range [OF assms r]
  show "api_delete_channel i file = (Failure (U ''Channel not found''), file)"
    using d .
  show "config_channels (snd (api_delete_channel i file)) = Some (JArr c)"
    using d assms by (simp add: config_channels_def obj_get_def)
qed

text \<open>
  The theorem at the example configuration: deleting at 0 moves the second channel to
  index 0, deleting at 2 or at -1 fails.
\<close>

theorem delete_channel_shifts_witness:
  "fst (api_delete_channel 0 (Document (JObj example_config)))
     = Success (U ''Channel deleted successfully'') channel_a
   \<and> config_channels (snd (api_delete_channel 0 (Document (JObj example_config))))
     = Some (JArr [channel_b])
   \<and> [channel_b] ! (1 - 1) = [channel_a, channel_b] ! 1
   \<and> api_delete_channel 2 (Document (JObj example_config))
     = (Failure (U ''Channel not found''), Document (JObj example_config))
   \<and> api_delete_channel (- 1) (Document (JObj example_config))
     = (Failure (U ''Channel not found''), Document (JObj example_config))"
proof -
  have l: "load_config (Document (JObj example_config)) = Some (JObj example_config)"
    by (simp add: load_config_def)
  note t = delete_channel_shifts [OF l example_channels]
  show ?thesis
    using t [of 0] t [of 2] t [of "- 1"] by simp
qed

section \<open>Properties of the archiving log\<close>

text \<open>
  The cut to the last 100 entries stands at the end of each pass of the monitoring loop:
  a pass leaves at most 100 entries, the latest line last.
\<close>

lemma logs_log_append: "logs (log_append e s) = logs s @ [e]"
  by (simp add: log_append_def)

lemma logs_parse_progress:
  "length (logs s) \<le> length (logs (parse_progress line s))
   \<and> length (logs (parse_progress line s)) \<le> Suc (length (logs s))"
  by (simp add: parse_progress_def logs_log_append split: option.splits)

lemma logs_update_progress: "logs (update_progress s) = logs s"
  by (simp add: update_progress_def)

lemma keep_last_100_bound: "length (logs (keep_last_100 s)) \<le> 100"
  by (simp add: keep_last_100_def)

lemma keep_last_100_logs: "logs (keep_last_100 s) = drop (length (logs s) - 100) (logs s)"
  by (simp add: keep_last_100_def)

lemma read_output_bounded:
  "length (logs s) \<le> 100 \<Longrightarrow> length (logs (read_output output s)) \<le> 100"
  by (simp add: read_output_def Let_def keep_last_100_bound)

lemma read_output_plain:
  assumes "py_strip output = line" and "line \<noteq> []"
    and "\<not> contains (U ''Skipping large file'') line" and "\<not> contains (U ''Downloaded:'') line"
  shows "logs (read_output output s) = drop (Suc (length (logs s)) - 100) (logs s @ [line])"
proof -
  have o: "output \<noteq> []" using assms(1,2) by (auto simp: py_strip_def)
  have "logs (parse_progress line (log_append line s)) = logs s @ [line]"
    using assms(3,4) by (simp add: parse_progress_def logs_log_append split: option.splits)
  then show ?thesis
    using o assms(1,2) by (simp add: read_output_def Let_def keep_last_100_logs logs_update_progress)
qed

lemma running_read_output: "running (read_output output s) = running s"
  by (simp add: read_output_def Let_def keep_last_100_def update_progress_def parse_progress_def
      log_append_def split: option.splits)

lemma stop_archiving_logs:
  "running s \<Longrightarrow> logs (snd (stop_archiving s)) = logs s @ [stop_sign @ U '' Archiving stopped by user'']"
  by (simp add: stop_archiving_def logs_log_append)

lemma output_x:
  "logs (read_output (U ''x'') s) = drop (Suc (length (logs s)) - 100) (logs s @ [U ''x''])"
proof (rule read_output_plain)
  show "py_strip (U ''x'') = U ''x''" by (simp add: py_strip_def is_space_def U_def)
  show "U ''x'' \<noteq> []" by (simp add: U_def)
  show "\<not> contains (U ''Skipping large file'') (U ''x'')" by (simp add: U_def)
  show "\<not> contains (U ''Downloaded:'') (U ''x'')" by (simp add: U_def)
qed

lemma run_outputs:
  "length (logs s) \<le> 100 \<Longrightarrow>
   length (logs (run_log_ops (replicate n (Output (U ''x''))) s)) = min 100 (length (logs s) + n)
   \<and> running (run_log_ops (replicate n (Output (U ''x''))) s) = running s"
proof (induction n arbitrary: s)
  case 0
  then show ?case by (simp add: run_log_ops_def)
next
  case (Suc n)
  let ?s' = "read_output (U ''x'') s"
  have l: "length (logs ?s') = min 100 (Suc (length (logs s)))"
    using Suc.prems by (simp add: output_x)
  then have "length (logs ?s') \<le> 100" by simp
  from Suc.IH [OF this] l show ?case
    using running_read_output [of "U ''x''" s] by (simp add: run_log_ops_def)
qed

text \<open>
  Claim C9 fails on the example run. The start leaves one entry, the started process
  adds three, and the 96 lines of output bring the log to 100 entries; the stop then
  appends its entry without the cut, and the log holds 101 entries.
\<close>

theorem archiving_logs_exceed_100:
  "length (logs (run_log_ops example_run initial_status)) = 101"
proof -
  let ?s2 = "process_started (U ''run_archiver.py'') 50 True
               (snd (start_archiving (U ''2025-03-07T09:05:00'') 50 True initial_status))"
  have s2: "length (logs ?s2) = 4" "running ?s2"
    by (simp_all add: process_started_def start_archiving_def initial_status_def log_append_def)
  let ?s3 = "run_log_ops (replicate 96 (Output (U ''x''))) ?s2"
  have s3: "length (logs ?s3) = 100" "running ?s3"
    using run_outputs [of ?s2 96] s2 by simp_all
  have "run_log_ops example_run initial_status = snd (stop_archiving ?s3)"
    by (simp add: example_run_def run_log_ops_def)
  then show ?thesis
    using s3 by (simp add: stop_archiving_logs)
qed


section \<open>Properties of the live archive\<close>

lemma str_nat_digits: "c \<in> set (str_nat n) \<Longrightarrow> 48 \<le> c \<and> c \<le> 57"
proof (induction n rule: str_nat.induct)
  case (1 n)
  show ?case
  proof (cases "n < 10")
    case True
    with "1.prems" show ?thesis by (simp add: str_nat.simps [of n])
  next
    case False
    with "1.prems" have "c \<in> set (str_nat (n div 10)) \<or> c = 48 + n mod 10"
      by (auto simp: str_nat.simps [of n])
    then show ?thesis
    proof
      assume "c \<in> set (str_nat (n div 10))"
      with "1.IH" False show ?thesis by simp
    next
      assume "c = 48 + n mod 10"
      moreover have "n mod 10 < 10" by simp
      ultimately show ?thesis by linarith
    qed
  qed
qed

lemma zfill_digits: "c \<in> set (zfill w (str_nat n)) \<Longrightarrow> 48 \<le> c \<and> c \<le> 57"
  using str_nat_digits by (auto simp: zfill_def)

lemma strftime_date_no_slash: "47 \<notin> set (strftime_date d)"
proof
  assume "47 \<in> set (strftime_date d)"
  then have "47 \<in> set (zfill 4 (str_nat (year d))) \<or> 47 \<in> set (zfill 2 (str_nat (month d)))
      \<or> 47 \<in> set (zfill 2 (str_nat (day d)))"
    by (auto simp: strftime_date_def U_def)
  then show False
    using zfill_digits [of 47] by auto
qed

lemma sanitize_filename_no_slash: "47 \<notin> set (sanitize_filename t)"
  using sanitize_filename_valid [of 47 t] by (auto simp: invalid_chars_def)

lemma log_file_not_media:
  "live_log_file channel_name now
     \<noteq> (live_channel_dir channel_name @ U ''/'' @ U ''media'') @ U ''/'' @ fname"
proof
  assume eq: "live_log_file channel_name now
     = (live_channel_dir channel_name @ U ''/'' @ U ''media'') @ U ''/'' @ fname"
  let ?s = "sanitize_filename channel_name"
  have "?s @ U ''_'' @ strftime_date now @ U ''_live.md'' = U ''media'' @ U ''/'' @ fname"
    using eq by (simp add: live_log_file_def)
  then have "set (?s @ U ''_'' @ strftime_date now @ U ''_live.md'') = set (U ''media'' @ U ''/'' @ fname)"
    by simp
  moreover have "47 \<in> set (U ''media'' @ U ''/'' @ fname)"
    by (simp add: U_def)
  moreover have "47 \<notin> set (?s @ U ''_'' @ strftime_date now @ U ''_live.md'')"
    using sanitize_filename_no_slash strftime_date_no_slash by (simp add: U_def)
  ultimately show False by simp
qed

lemma live_download_keeps_log:
  assumes "writes_only_target client"
  shows "fst (live_download client download_media message channel_name files)
           (live_log_file channel_name now) = files (live_log_file channel_name now)"
proof (cases "msg_media message \<noteq> None \<and> download_media")
  case False
  then show ?thesis by (auto simp: live_download_def Let_def)
next
  case True
  then obtain m where m: "msg_media message = Some m" and dm: download_media by auto
  let ?p = "(live_channel_dir channel_name @ U ''/'' @ U ''media'')
         @ U ''/'' @ media_filename m (msg_id message)"
  have "fst (client message ?p files) (live_log_file channel_name now)
          = files (live_log_file channel_name now)"
    using assms log_file_not_media [of channel_name now "media_filename m (msg_id message)"]
    unfolding writes_only_target_def by blast
  then show ?thesis
    using m dm by (simp add: live_download_def download_media_file_def Let_def case_prod_beta)
qed

lemma live_paths:
  "live_channel_dir channel_name = U ''live_archive/'' @ sanitize_filename channel_name"
  "live_log_file channel_name now =
     U ''live_archive/'' @ sanitize_filename channel_name @ U ''/'' @ sanitize_filename channel_name
       @ U ''_'' @ strftime_date now @ U ''_live.md''"
  by (simp_all add: live_channel_dir_def live_log_file_def U_def)

lemma live_media_path:
  "snd (live_download client download_media message channel_name files) =
     (if msg_media message \<noteq> None \<and> download_media
      then snd (download_media_file client download_media message
                  (U ''live_archive/'' @ sanitize_filename channel_name @ U ''/media'')
                  (msg_id message) files)
      else None)"
  by (simp add: live_download_def live_channel_dir_def Let_def U_def)

lemma format_message_starts:
  "startswith (U ''## Message '' @ str_int (msg_id message) @ U ''\<newline>\<newline>'')
     (format_message_as_markdown message channel_name media_path)"
proof -
  have "\<exists>rest. format_message_as_markdown message channel_name media_path
      = (U ''## Message '' @ str_int (msg_id message) @ U ''\<newline>\<newline>'') @ rest"
    by (simp add: format_message_as_markdown_def Let_def split: option.splits)
  then obtain rest where "format_message_as_markdown message channel_name media_path
      = (U ''## Message '' @ str_int (msg_id message) @ U ''\<newline>\<newline>'') @ rest"
    by blast
  then show ?thesis
    using startswith_append [of "U ''## Message '' @ str_int (msg_id message) @ U ''\<newline>\<newline>''" rest]
    by (simp only:)
qed

text \<open>
  Claim C7, as amended. In live mode, when the channel directory can be created, the
  media directory can be created if media are downloaded, and the daily file
  \<^verbatim>\<open>live_archive/<name>/<name>_<YYYY-MM-DD>_live.md\<close> can be opened, \<open>save_single_message\<close>
  appends the rendered message to that file: when the file does not exist yet, the file
  becomes the archive header (title line, date, start of the monitoring, separator)
  followed by the message section; when it exists, its contents are kept and only the
  message section, which starts with \<^verbatim>\<open>## Message <id>\<close>, is added after them. When one of
  the three steps fails, the daily file stays as it was. (The client's download writes no
  file but its own target.)
\<close>

theorem save_single_message_appends:
  assumes "writes_only_target client"
  shows
   "(let channel_dir = U ''live_archive/'' @ sanitize_filename channel_name;
         log_file = channel_dir @ U ''/'' @ sanitize_filename channel_name @ U ''_''
                      @ strftime_date now @ U ''_live.md'';
         media_path =
           (if msg_media message \<noteq> None \<and> download_media
            then snd (download_media_file client download_media message
                        (channel_dir @ U ''/media'') (msg_id message) files)
            else None);
         rendered = format_message_as_markdown message channel_name media_path;
         saved = save_single_message env client download_media now now_header message
                   channel_name files
     in (if mkdir_ok env channel_dir
            \<and> (mkdir_ok env (channel_dir @ U ''/media'') \<or> \<not> download_media)
            \<and> open_ok env log_file
         then saved log_file =
                Some (case files log_file of
                        None \<Rightarrow>
                          U ''# '' @ channel_name @ U '' - Live Archive\<newline>\<newline>''
                            @ U ''**Date:** '' @ strftime_date now @ U ''\<newline>''
                            @ U ''**Real-time monitoring started:** '' @ strftime_datetime now_header
                            @ U ''\<newline>\<newline>''
                            @ U ''---\<newline>\<newline>''
                            @ rendered
                      | Some existing \<Rightarrow> existing @ rendered)
         else saved log_file = files log_file)
        \<and> startswith (U ''## Message '' @ str_int (msg_id message) @ U ''\<newline>\<newline>'') rendered)"
proof -
  let ?cd = "U ''live_archive/'' @ sanitize_filename channel_name"
  let ?lf = "?cd @ U ''/'' @ sanitize_filename channel_name @ U ''_''
                      @ strftime_date now @ U ''_live.md''"
  let ?mp = "(if msg_media message \<noteq> None \<and> download_media
            then snd (download_media_file client download_media message
                        (?cd @ U ''/media'') (msg_id message) files)
            else None)"
  let ?saved = "save_single_message env client download_media now now_header message
                   channel_name files"
  let ?ok = "mkdir_ok env ?cd \<and> (mkdir_ok env (?cd @ U ''/media'') \<or> \<not> download_media)
            \<and> open_ok env ?lf"
  define lf where "lf = ?lf"
  define dl where "dl = live_download client download_media message channel_name files"
  define mp where "mp = ?mp"
  define r where "r = format_message_as_markdown message channel_name mp"
  have cd_eq: "live_channel_dir channel_name = ?cd"
    by (simp add: live_channel_dir_def U_def)
  have lf_eq: "live_log_file channel_name now = lf"
    by (simp add: lf_def live_log_file_def live_channel_dir_def U_def)
  have md: "?cd @ U ''/'' @ U ''media'' = ?cd @ U ''/media''"
    by (simp add: U_def)
  have sm: "U ''/'' @ U ''media'' = U ''/media''"
    by (simp add: U_def)
  have mp_eq: "snd dl = mp"
    by (simp add: dl_def mp_def live_download_def cd_eq sm Let_def)
  have keep: "fst dl lf = files lf"
    using live_download_keeps_log [OF assms, of download_media message channel_name files now]
    unfolding lf_eq dl_def .
  have A: "?saved lf =
                Some (case files lf of
                        None \<Rightarrow>
                          U ''# '' @ channel_name @ U '' - Live Archive\<newline>\<newline>''
                            @ U ''**Date:** '' @ strftime_date now @ U ''\<newline>''
                            @ U ''**Real-time monitoring started:** '' @ strftime_datetime now_header
                            @ U ''\<newline>\<newline>''
                            @ U ''---\<newline>\<newline>''
                            @ r
                      | Some existing \<Rightarrow> existing @ r)" if "?ok"
  proof -
    from that have 1: "mkdir_ok env ?cd" and 2: "mkdir_ok env (?cd @ U ''/media'') \<or> \<not> download_media"
      and 3: "open_ok env lf" by (auto simp: lf_def)
    have "?saved = open_append (fst dl) lf
            ((if fst dl lf = None then live_header channel_name (strftime_date now) now_header else [])
               @ format_message_as_markdown message channel_name (snd dl))"
      using 1 2 3 unfolding save_single_message_def cd_eq lf_eq Let_def md case_prod_beta dl_def
      by auto
    then have "?saved lf = Some ((case files lf of None \<Rightarrow> [] | Some old \<Rightarrow> old)
            @ (if files lf = None then live_header channel_name (strftime_date now) now_header else [])
            @ r)"
      by (simp add: open_append_def keep mp_eq r_def)
    then show ?thesis
      by (cases "files lf") (simp_all add: live_header_def)
  qed
  have B: "?saved lf = files lf" if "\<not> ?ok"
  proof -
    from that consider "\<not> mkdir_ok env ?cd"
      | "mkdir_ok env ?cd" "download_media \<and> \<not> mkdir_ok env (?cd @ U ''/media'')"
      | "mkdir_ok env ?cd" "\<not> (download_media \<and> \<not> mkdir_ok env (?cd @ U ''/media''))" "\<not> open_ok env lf"
      by (auto simp: lf_def)
    then show ?thesis
    proof cases
      case 1
      then show ?thesis unfolding save_single_message_def cd_eq lf_eq Let_def md by simp
    next
      case 2
      then show ?thesis unfolding save_single_message_def cd_eq lf_eq Let_def md by simp
    next
      case 3
      then have "?saved = fst dl"
        unfolding save_single_message_def cd_eq lf_eq Let_def md case_prod_beta dl_def by auto
      then show ?thesis using keep by simp
    qed
  qed
  have C: "startswith (U ''## Message '' @ str_int (msg_id message) @ U ''\<newline>\<newline>'') r"
    unfolding r_def by (rule format_message_starts)
  have "if ?ok then ?saved lf =
                Some (case files lf of
                        None \<Rightarrow>
                          U ''# '' @ channel_name @ U '' - Live Archive\<newline>\<newline>''
                            @ U ''**Date:** '' @ strftime_date now @ U ''\<newline>''
                            @ U ''**Real-time monitoring started:** '' @ strftime_datetime now_header
                            @ U ''\<newline>\<newline>''
                            @ U ''---\<newline>\<newline>''
                            @ r
                      | Some existing \<Rightarrow> existing @ r)
        else ?saved lf = files lf"
  proof (cases "?ok")
    case True
    show ?thesis unfolding if_P [OF True] by (rule A [OF True])
  next
    case False
    show ?thesis unfolding if_not_P [OF False] by (rule B [OF False])
  qed
  then show ?thesis
    unfolding Let_def r_def mp_def lf_def using C [unfolded r_def mp_def] by (rule conjI)
qed

lemma split_on_no_sep: "sep \<notin> set s \<Longrightarrow> split_on sep s = [s]"
  by (induction s) auto

lemma sanitize_chan: "sanitize_filename (U ''chan'') = U ''chan''"
  by (simp add: sanitize_filename_def replace_invalid_def invalid_chars_def U_def)

lemma example_day: "strftime_date example_date = U ''2025-03-07''"
  by (simp add: strftime_date_def example_date_def zfill_def str_nat_2025 str_nat_small str_nat_7)
     (simp add: U_def)

lemma example_paths_fit:
  "name_fits (U ''live_archive/'' @ U ''chan'')"
  "name_fits (U ''live_archive/'' @ U ''chan'' @ U ''/media'')"
  "name_fits (U ''live_archive/chan/chan_2025-03-07_live.md'')"
  by (simp_all add: name_fits_def utf8_length_def utf8_width_def U_def)

lemma example_rendering:
  "format_message_as_markdown (bare_message None) (U ''chan'') None
     = U ''## Message 7\<newline>\<newline>**Channel:** chan\<newline>**Sender:** Unknown\<newline>**Date:** 2025-03-07 09:05:00\<newline>**Message ID:** 7\<newline>\<newline>---\<newline>\<newline>''"
  by (simp add: format_message_as_markdown_def bare_message_def Let_def example_timestamp
      sender_label_def truthy_def str_int_def str_nat_7)
     (simp add: U_def)

lemma example_log_path:
  "U ''live_archive/'' @ U ''chan'' @ U ''/'' @ U ''chan'' @ U ''_'' @ U ''2025-03-07'' @ U ''_live.md''
     = example_log"
  by (simp add: example_log_def U_def)

lemma example_header_text:
  "U ''# '' @ U ''chan'' @ U '' - Live Archive\<newline>\<newline>''
     @ U ''**Date:** '' @ U ''2025-03-07'' @ U ''\<newline>''
     @ U ''**Real-time monitoring started:** '' @ U ''2025-03-07 09:05:00''
     @ U ''\<newline>\<newline>'' @ U ''---\<newline>\<newline>'' = example_header"
  by (simp add: example_header_def U_def)

lemma download_ok_writes_only_target: "writes_only_target download_ok"
  by (simp add: writes_only_target_def download_ok_def)

text \<open>
  The theorem at message 7 of the channel \<^verbatim>\<open>chan\<close>, saved twice: the first save creates the
  daily file with the header and the message, the second adds the message only.
\<close>

theorem save_single_message_appends_witness:
  "save_single_message name_max_fs download_ok True example_date example_date (bare_message None)
     (U ''chan'') no_files example_log
     = Some (example_header @ example_section)
   \<and> save_single_message name_max_fs download_ok True example_date example_date (bare_message None)
       (U ''chan'')
       (save_single_message name_max_fs download_ok True example_date example_date
          (bare_message None) (U ''chan'') no_files)
       example_log
     = Some ((example_header @ example_section) @ example_section)"
proof -
  let ?first = "save_single_message name_max_fs download_ok True example_date example_date
          (bare_message None) (U ''chan'') no_files"
  have m: "msg_media (bare_message None) = None"
    by (simp add: bare_message_def)
  have ok: "mkdir_ok name_max_fs = name_fits" "open_ok name_max_fs = name_fits"
    by (simp_all add: name_max_fs_def)
  have r: "format_message_as_markdown (bare_message None) (U ''chan'') None = example_section"
    by (simp add: example_rendering example_section_def)
  have 1: "?first example_log = Some (example_header @ example_section)"
    using save_single_message_appends [OF download_ok_writes_only_target,
        of "U ''chan''" example_date "bare_message None" True no_files name_max_fs example_date]
    by (simp add: Let_def sanitize_chan example_day example_paths_fit [folded example_log_def]
        ok m r example_log_path example_timestamp example_header_text no_files_def)
  have 2: "save_single_message name_max_fs download_ok True example_date example_date
          (bare_message None) (U ''chan'') ?first example_log
        = Some ((example_header @ example_section) @ example_section)"
    using save_single_message_appends [OF download_ok_writes_only_target,
        of "U ''chan''" example_date "bare_message None" True ?first name_max_fs example_date]
    by (simp add: Let_def sanitize_chan example_day example_paths_fit [folded example_log_def]
        ok m r example_log_path 1)
  show ?thesis using 1 2 by simp
qed

lemma sanitize_long_title: "sanitize_filename long_title = long_title"
  by (simp add: sanitize_filename_take long_title_def replace_invalid_def invalid_chars_def)

lemma long_title_too_long: "\<not> name_fits (U ''live_archive'' @ U ''/'' @ long_title)"
proof -
  have "split_on 47 (U ''live_archive'' @ U ''/'' @ long_title) = [U ''live_archive'', long_title]"
    by (simp add: U_def split_on_no_sep long_title_def)
  moreover have "utf8_length long_title = 300"
    by (simp add: utf8_length_def long_title_def utf8_width_def sum_list_replicate)
  ultimately show ?thesis
    by (simp add: name_fits_def)
qed

text \<open>
  Claim C7 as stated fails. The title of the channel is one hundred CJK characters: the
  name of its directory takes 300 bytes, the file system refuses it, and the \<^verbatim>\<open>except\<close>
  branch ends the call. Nothing is appended and no daily file exists afterwards.
\<close>

theorem save_single_message_counterexample:
  "save_single_message name_max_fs download_ok True example_date example_date (bare_message None)
     long_title no_files = no_files
   \<and> save_single_message name_max_fs download_ok True example_date example_date (bare_message None)
       long_title no_files
       (U ''live_archive/'' @ long_title @ U ''/'' @ long_title @ U ''_2025-03-07_live.md'') = None"
proof -
  have "\<not> mkdir_ok name_max_fs (live_channel_dir long_title)"
    using long_title_too_long by (simp add: name_max_fs_def live_channel_dir_def sanitize_long_title)
  then have "save_single_message name_max_fs download_ok True example_date example_date
      (bare_message None) long_title no_files = no_files"
    by (simp add: save_single_message_def Let_def)
  then show ?thesis by (simp add: no_files_def)
qed


section \<open>Properties of the search\<close>

lemma segment_text_case: "(case seg of Plain c \<Rightarrow> [c] | Marked s \<Rightarrow> s) = segment_text seg"
  by (cases seg) simp_all

lemma highlight_segments:
  "highlight db q t =
     concat (map (\<lambda>seg. case seg of Plain c \<Rightarrow> [c] | Marked s \<Rightarrow> U ''<mark>'' @ s @ U ''</mark>'')
       (scan_segments db q t))"
  by (induction db q t rule: scan_segments.induct) simp_all

lemma segments_text: "concat (map segment_text (scan_segments db q t)) = t"
proof (induction db q t rule: scan_segments.induct)
  case (1 db q)
  then show ?case by simp
next
  case (2 db q c cs)
  show ?case
  proof (cases "q = []")
    case True
    with 2 show ?thesis by simp
  next
    case False
    show ?thesis
    proof (cases "ci_match db q (c # cs)")
      case True
      then have len: "length q \<le> Suc (length cs)" by (simp add: ci_match_def)
      from False obtain n where n: "length q = Suc n" by (cases q) auto
      have "take (length q) (c # cs) @ drop (length q - 1) cs = c # cs"
        using n by simp
      with 2 False True show ?thesis by simp
    next
      case nomatch: False
      with 2 False show ?thesis by simp
    qed
  qed
qed

lemma segments_marked:
  "Marked s \<in> set (scan_segments db q t) \<Longrightarrow> list_all2 (same_letter db) q s"
proof (induction db q t rule: scan_segments.induct)
  case (1 db q)
  then show ?case by (simp split: if_splits)
next
  case (2 db q c cs)
  show ?case
  proof (cases "q = []")
    case True
    with 2 show ?thesis by auto
  next
    case False
    show ?thesis
    proof (cases "ci_match db q (c # cs)")
      case True
      with 2 False show ?thesis by (auto simp: ci_match_def)
    next
      case nomatch: False
      with 2 False show ?thesis by auto
    qed
  qed
qed

lemma segments_plain:
  "q \<noteq> [] \<Longrightarrow> scan_segments db q t = pre @ Plain c # post \<Longrightarrow>
   \<not> ci_match db q (c # concat (map segment_text post))"
proof (induction db q t arbitrary: pre rule: scan_segments.induct)
  case (1 db q)
  then show ?case by simp
next
  case (2 db q d ds)
  show ?case
  proof (cases "ci_match db q (d # ds)")
    case True
    with 2 obtain pre' where "scan_segments db q (drop (length q - 1) ds) = pre' @ Plain c # post"
      by (cases pre) auto
    with 2 True show ?thesis by blast
  next
    case False
    show ?thesis
    proof (cases pre)
      case Nil
      with 2 False have "c = d" and "post = scan_segments db q ds" by auto
      with False show ?thesis by (simp add: segments_text)
    next
      case (Cons x pre')
      with 2 False have "scan_segments db q ds = pre' @ Plain c # post" by auto
      with 2 False show ?thesis by blast
    qed
  qed
qed

lemma make_result_content:
  "res_content (make_result db q ch f i m) = truncate_300 (highlight db q (res_full_content (make_result db q ch f i m)))"
  by (simp add: make_result_def Let_def)

lemma loop_messages_content:
  "list_all (\<lambda>r. res_content r = truncate_300 (highlight db q (res_full_content r))) results \<Longrightarrow>
   list_all (\<lambda>r. res_content r = truncate_300 (highlight db q (res_full_content r)))
     (fst (search_loop_messages db q limit ch f msgs results))"
  by (induction db q limit ch f msgs results rule: search_loop_messages.induct)
     (auto simp: Let_def make_result_content)

lemma loop_files_content:
  "list_all (\<lambda>r. res_content r = truncate_300 (highlight db q (res_full_content r))) results \<Longrightarrow>
   list_all (\<lambda>r. res_content r = truncate_300 (highlight db q (res_full_content r)))
     (fst (search_loop_files db q limit ch files results))"
proof (induction db q limit ch files results rule: search_loop_files.induct)
  case (1 db query limit channel_name results)
  then show ?case by simp
next
  case (2 db query limit channel_name md_file rest results)
  show ?case
  proof (cases "file_content md_file")
    case None
    with 2 show ?thesis by simp
  next
    case (Some content)
    obtain r ret where l: "search_loop_messages db query limit channel_name (file_name md_file)
        (enumerate 0 (tl (re_split_headers db True content))) results = (r, ret)"
      by (cases "search_loop_messages db query limit channel_name (file_name md_file)
        (enumerate 0 (tl (re_split_headers db True content))) results") auto
    have r: "list_all (\<lambda>r. res_content r = truncate_300 (highlight db query (res_full_content r))) r"
      using loop_messages_content [OF "2.prems", of limit channel_name "file_name md_file"
          "enumerate 0 (tl (re_split_headers db True content))"] l by simp
    show ?thesis
    proof (cases ret)
      case True
      with Some l r show ?thesis by simp
    next
      case False
      with "2.IH"(2) [OF Some refl l [symmetric] refl _ r] Some l show ?thesis by simp
    qed
  qed
qed

lemma loop_channels_content:
  "list_all (\<lambda>r. res_content r = truncate_300 (highlight db q (res_full_content r))) results \<Longrightarrow>
   list_all (\<lambda>r. res_content r = truncate_300 (highlight db q (res_full_content r)))
     (fst (search_loop_channels db q limit chans results))"
proof (induction db q limit chans results rule: search_loop_channels.induct)
  case (1 db query limit results)
  then show ?case by simp
next
  case (2 db query limit channel_name dir rest results)
  obtain r ret where l: "search_loop_files db query limit channel_name (glob_md dir) results = (r, ret)"
    by (cases "search_loop_files db query limit channel_name (glob_md dir) results") auto
  have r: "list_all (\<lambda>r. res_content r = truncate_300 (highlight db query (res_full_content r))) r"
    using loop_files_content [OF "2.prems", of limit channel_name "glob_md dir"] l by simp
  show ?case
  proof (cases ret)
    case True
    with l r show ?thesis by simp
  next
    case False
    with "2.IH" [OF l [symmetric] refl _ r] l show ?thesis by simp
  qed
qed

lemma search_messages_content:
  "r \<in> set (search_messages db archive_dirs q ch limit) \<Longrightarrow>
   res_content r = truncate_300 (highlight db q (res_full_content r))"
  using loop_channels_content [of db q "[]" limit "channels_to_search ch archive_dirs"]
  by (simp add: search_messages_def list_all_iff)

text \<open>
  Claim C3, as amended. The highlighted content that \<open>search_messages\<close> computes for a
  query and a content text is the text cut into pieces, each wrapped piece standing
  between \<^verbatim>\<open><mark>\<close> and \<^verbatim>\<open></mark>\<close> and every other character left as it is: without the
  inserted tags the pieces give the content text back; every wrapped piece matches the
  query character by character as \<^verbatim>\<open>re.IGNORECASE\<close> compares them; and no occurrence of the
  query starts at a character that is left unwrapped, so the occurrences wrapped are
  those found from left to right that do not overlap an earlier one. The \<^verbatim>\<open>content\<close> field
  of every result is this highlighted content of its \<^verbatim>\<open>full_content\<close>, cut to 300
  characters and an ellipsis when it is longer.
\<close>

theorem highlight_wraps_query:
  "(\<exists>segs.
      highlight db query content_text =
        concat (map (\<lambda>seg. case seg of Plain c \<Rightarrow> [c]
                                     | Marked s \<Rightarrow> U ''<mark>'' @ s @ U ''</mark>'') segs)
    \<and> concat (map (\<lambda>seg. case seg of Plain c \<Rightarrow> [c] | Marked s \<Rightarrow> s) segs) = content_text
    \<and> (\<forall>s. Marked s \<in> set segs \<longrightarrow> list_all2 (same_letter db) query s)
    \<and> (\<forall>pre c post. query \<noteq> [] \<and> segs = pre @ Plain c # post \<longrightarrow>
          \<not> (length query
                \<le> length (c # concat (map (\<lambda>seg. case seg of Plain c \<Rightarrow> [c] | Marked s \<Rightarrow> s) post))
              \<and> list_all2 (same_letter db) query
                  (take (length query)
                     (c # concat (map (\<lambda>seg. case seg of Plain c \<Rightarrow> [c] | Marked s \<Rightarrow> s) post))))))
   \<and> (\<forall>r \<in> set (search_messages db archive_dirs query channel_name limit).
         res_content r =
           (if length (highlight db query (res_full_content r)) > 300
            then take 300 (highlight db query (res_full_content r)) @ U ''...''
            else highlight db query (res_full_content r)))"
proof (rule conjI)
  let ?segs = "scan_segments db query content_text"
  have st: "(\<lambda>seg. case seg of Plain c \<Rightarrow> [c] | Marked s \<Rightarrow> s) = segment_text"
    by (rule ext) (rule segment_text_case)
  have 1: "highlight db query content_text =
        concat (map (\<lambda>seg. case seg of Plain c \<Rightarrow> [c]
                                     | Marked s \<Rightarrow> U ''<mark>'' @ s @ U ''</mark>'') ?segs)"
    by (rule highlight_segments)
  have 2: "concat (map (\<lambda>seg. case seg of Plain c \<Rightarrow> [c] | Marked s \<Rightarrow> s) ?segs) = content_text"
    unfolding st by (rule segments_text)
  have 3: "\<forall>s. Marked s \<in> set ?segs \<longrightarrow> list_all2 (same_letter db) query s"
  proof (intro allI impI)
    fix s assume "Marked s \<in> set ?segs"
    then show "list_all2 (same_letter db) query s" by (rule segments_marked)
  qed
  have 4: "\<forall>pre c post. query \<noteq> [] \<and> ?segs = pre @ Plain c # post \<longrightarrow>
          \<not> (length query
                \<le> length (c # concat (map (\<lambda>seg. case seg of Plain c \<Rightarrow> [c] | Marked s \<Rightarrow> s) post))
              \<and> list_all2 (same_letter db) query
                  (take (length query)
                     (c # concat (map (\<lambda>seg. case seg of Plain c \<Rightarrow> [c] | Marked s \<Rightarrow> s) post))))"
  proof (intro allI impI)
    fix pre c post
    assume a: "query \<noteq> [] \<and> ?segs = pre @ Plain c # post"
    then have "\<not> ci_match db query (c # concat (map segment_text post))"
      using segments_plain [of query db content_text pre c post] by simp
    then show "\<not> (length query
                \<le> length (c # concat (map (\<lambda>seg. case seg of Plain c \<Rightarrow> [c] | Marked s \<Rightarrow> s) post))
              \<and> list_all2 (same_letter db) query
                  (take (length query)
                     (c # concat (map (\<lambda>seg. case seg of Plain c \<Rightarrow> [c] | Marked s \<Rightarrow> s) post))))"
      unfolding st ci_match_def .
  qed
  show "\<exists>segs.
      highlight db query content_text =
        concat (map (\<lambda>seg. case seg of Plain c \<Rightarrow> [c]
                                     | Marked s \<Rightarrow> U ''<mark>'' @ s @ U ''</mark>'') segs)
    \<and> concat (map (\<lambda>seg. case seg of Plain c \<Rightarrow> [c] | Marked s \<Rightarrow> s) segs) = content_text
    \<and> (\<forall>s. Marked s \<in> set segs \<longrightarrow> list_all2 (same_letter db) query s)
    \<and> (\<forall>pre c post. query \<noteq> [] \<and> segs = pre @ Plain c # post \<longrightarrow>
          \<not> (length query
                \<le> length (c # concat (map (\<lambda>seg. case seg of Plain c \<Rightarrow> [c] | Marked s \<Rightarrow> s) post))
              \<and> list_all2 (same_letter db) query
                  (take (length query)
                     (c # concat (map (\<lambda>seg. case seg of Plain c \<Rightarrow> [c] | Marked s \<Rightarrow> s) post)))))"
    by (rule exI [of _ ?segs]) (intro conjI 1 2 3 4)
next
  show "\<forall>r \<in> set (search_messages db archive_dirs query channel_name limit).
         res_content r =
           (if length (highlight db query (res_full_content r)) > 300
            then take 300 (highlight db query (res_full_content r)) @ U ''...''
            else highlight db query (res_full_content r))"
  proof
    fix r
    assume "r \<in> set (search_messages db archive_dirs query channel_name limit)"
    from search_messages_content [OF this]
    show "res_content r =
           (if length (highlight db query (res_full_content r)) > 300
            then take 300 (highlight db query (res_full_content r)) @ U ''...''
            else highlight db query (res_full_content r))"
      by (simp add: truncate_300_def)
  qed
qed

lemma ascii_db_fields:
  "str_lower ascii_db = map ascii_lower"
  "same_letter ascii_db = (\<lambda>c d. ascii_lower c = ascii_lower d)"
  "is_decimal ascii_db = is_digit"
  by (simp_all add: ascii_db_def)

lemma example_highlight:
  "highlight ascii_db (U ''aa'') (U ''aAaxAA'') = U ''<mark>aA</mark>ax<mark>AA</mark>''"
  by (simp add: U_def ci_match_def ascii_db_fields ascii_lower_def)

text \<open>
  Claim C3 as stated fails. In the text \<^verbatim>\<open>aaa\<close> the query \<^verbatim>\<open>aa\<close> occurs at the second
  character too; that occurrence overlaps the first one and is not wrapped, its last
  character stands outside the tags.
\<close>

theorem highlight_overlap_counterexample:
  "take 2 (drop 1 (U ''aaa'')) = U ''aa''
   \<and> highlight ascii_db (U ''aa'') (U ''aaa'') = U ''<mark>aa</mark>a''"
  by (simp add: U_def ci_match_def ascii_db_fields ascii_lower_def)

text \<open>
  The limit of the search. The test \<^verbatim>\<open>len(results) >= limit\<close> stands after the
  \<^verbatim>\<open>append\<close>: a loop that starts below a limit stops exactly at it, so a positive limit
  bounds the number of results.
\<close>

lemma loop_messages_bound:
  "int (length results) < limit \<Longrightarrow>
   search_loop_messages db q limit ch f msgs results = (r, ret) \<Longrightarrow>
   (if ret then int (length r) = limit else int (length r) < limit)"
proof (induction db q limit ch f msgs results rule: search_loop_messages.induct)
  case (1 db query limit channel_name fname results)
  then show ?case by auto
next
  case (2 db query limit channel_name fname i message rest results)
  show ?case
  proof (cases "contains (str_lower db query) (str_lower db message)")
    case False
    with 2 show ?thesis by simp
  next
    case True
    let ?results' = "results @ [make_result db query channel_name fname i message]"
    show ?thesis
    proof (cases "int (length ?results') \<ge> limit")
      case full: True
      with True "2.prems" show ?thesis by (auto simp: Let_def)
    next
      case notfull: False
      then have lt: "int (length ?results') < limit" by simp
      have "search_loop_messages db query limit channel_name fname rest ?results' = (r, ret)"
        using "2.prems"(2) True notfull by (simp add: Let_def)
      with "2.IH"(1) [OF True refl _ lt] notfull show ?thesis by simp
    qed
  qed
qed

lemma loop_files_bound:
  "int (length results) < limit \<Longrightarrow>
   search_loop_files db q limit ch files results = (r, ret) \<Longrightarrow>
   (if ret then int (length r) = limit else int (length r) < limit)"
proof (induction db q limit ch files results rule: search_loop_files.induct)
  case (1 db query limit channel_name results)
  then show ?case by auto
next
  case (2 db query limit channel_name md_file rest results)
  show ?case
  proof (cases "file_content md_file")
    case None
    with 2 show ?thesis by simp
  next
    case (Some content)
    obtain r1 ret1 where l: "search_loop_messages db query limit channel_name (file_name md_file)
        (enumerate 0 (tl (re_split_headers db True content))) results = (r1, ret1)"
      by (cases "search_loop_messages db query limit channel_name (file_name md_file)
        (enumerate 0 (tl (re_split_headers db True content))) results") auto
    note b = loop_messages_bound [OF "2.prems"(1) l]
    show ?thesis
    proof (cases ret1)
      case True
      with Some l b "2.prems"(2) show ?thesis by auto
    next
      case False
      with b have lt: "int (length r1) < limit" by simp
      have "search_loop_files db query limit channel_name rest r1 = (r, ret)"
        using "2.prems"(2) Some l False by simp
      with "2.IH"(2) [OF Some refl l [symmetric] refl _ lt] False show ?thesis by simp
    qed
  qed
qed

lemma loop_channels_bound:
  "int (length results) < limit \<Longrightarrow>
   search_loop_channels db q limit chans results = (r, ret) \<Longrightarrow>
   (if ret then int (length r) = limit else int (length r) < limit)"
proof (induction db q limit chans results rule: search_loop_channels.induct)
  case (1 db query limit results)
  then show ?case by auto
next
  case (2 db query limit channel_name dir rest results)
  obtain r1 ret1 where l: "search_loop_files db query limit channel_name (glob_md dir) results = (r1, ret1)"
    by (cases "search_loop_files db query limit channel_name (glob_md dir) results") auto
  note b = loop_files_bound [OF "2.prems"(1) l]
  show ?case
  proof (cases ret1)
    case True
    with l b "2.prems"(2) show ?thesis by auto
  next
    case False
    with b have lt: "int (length r1) < limit" by simp
    have "search_loop_channels db query limit rest r1 = (r, ret)"
      using "2.prems"(2) l False by simp
    with "2.IH" [OF l [symmetric] refl _ lt] False show ?thesis by simp
  qed
qed

lemma search_messages_bounded:
  "0 < limit \<Longrightarrow> int (length (search_messages db archive_dirs q ch limit)) \<le> limit"
proof -
  assume pos: "0 < limit"
  obtain r ret where l: "search_loop_channels db q limit (channels_to_search ch archive_dirs) [] = (r, ret)"
    by (cases "search_loop_channels db q limit (channels_to_search ch archive_dirs) []") auto
  have "int (length ([] :: search_result list)) < limit" using pos by simp
  from loop_channels_bound [OF this l] have "int (length r) \<le> limit"
    by (cases ret) auto
  with l show ?thesis by (simp add: search_messages_def)
qed

lemma example_split:
  "re_split_headers ascii_db True example_file
     = [[], U ''\<newline>\<newline>**Channel:** chan\<newline>**Sender:** Unknown\<newline>**Date:** 2025-03-07 09:05:00\<newline>**Message ID:** 7\<newline>\<newline>### Content\<newline>\<newline>Hello\<newline>\<newline>---\<newline>\<newline>'']"
  by (simp add: example_file_def U_def header_match_def message_marker_def ascii_db_fields
      is_digit_def Let_def)

lemma example_result:
  "make_result ascii_db (U ''hello'') (U ''chan'') (U ''chan_2025-03-07_live.md'') 0
     (U ''\<newline>\<newline>**Channel:** chan\<newline>**Sender:** Unknown\<newline>**Date:** 2025-03-07 09:05:00\<newline>**Message ID:** 7\<newline>\<newline>### Content\<newline>\<newline>Hello\<newline>\<newline>---\<newline>\<newline>'')
   = \<lparr>res_channel = U ''chan'', res_message_id = U ''7'', res_date = U ''2025-03-07 09:05:00'',
       res_sender = U ''Unknown'', res_content = U ''<mark>Hello</mark>\<newline>\<newline>---'',
       res_full_content = U ''Hello\<newline>\<newline>---'',
       res_has_media = False, res_media_type = [], res_file = U ''chan_2025-03-07_live.md''\<rparr>"
  by (simp add: make_result_def Let_def U_def ascii_db_fields is_digit_def not_newline_def
      content_marker_def py_strip_def is_space_def ci_match_def ascii_lower_def truncate_300_def)

lemma example_matches:
  "contains (str_lower ascii_db (U ''hello''))
     (str_lower ascii_db (U ''\<newline>\<newline>**Channel:** chan\<newline>**Sender:** Unknown\<newline>**Date:** 2025-03-07 09:05:00\<newline>**Message ID:** 7\<newline>\<newline>### Content\<newline>\<newline>Hello\<newline>\<newline>---\<newline>\<newline>''))"
  by (simp add: U_def ascii_db_fields ascii_lower_def)

lemma example_names: "U ''chan'' \<noteq> U ''media''"
  by (simp add: U_def)

lemma example_search:
  "search_messages ascii_db example_archive (U ''hello'') None 0 =
     [\<lparr>res_channel = U ''chan'', res_message_id = U ''7'', res_date = U ''2025-03-07 09:05:00'',
       res_sender = U ''Unknown'', res_content = U ''<mark>Hello</mark>\<newline>\<newline>---'',
       res_full_content = U ''Hello\<newline>\<newline>---'',
       res_has_media = False, res_media_type = [], res_file = U ''chan_2025-03-07_live.md''\<rparr>]"
  by (simp add: search_messages_def example_archive_def plain_dir_def channels_to_search_def
      truthy_def glob_md_def example_split enumerate_eq_zip example_matches example_result Let_def
      example_names)

lemma example_hello:
  "highlight ascii_db (U ''hello'') (U ''Hello\<newline>\<newline>---'') = U ''<mark>Hello</mark>\<newline>\<newline>---''"
  by (simp add: U_def ci_match_def ascii_db_fields ascii_lower_def)

text \<open>
  The theorem at the query \<^verbatim>\<open>aa\<close> and the text \<^verbatim>\<open>aAaxAA\<close>: the two occurrences are wrapped,
  and the highlighted text is the rendering of pieces that give the text back. And at the
  query \<^verbatim>\<open>hello\<close> over the example archive: the one result carries the highlighted content
  of its full content.
\<close>

theorem highlight_wraps_query_witness:
  "highlight ascii_db (U ''aa'') (U ''aAaxAA'') = U ''<mark>aA</mark>ax<mark>AA</mark>''
   \<and> (\<exists>segs.
         U ''<mark>aA</mark>ax<mark>AA</mark>'' =
           concat (map (\<lambda>seg. case seg of Plain c \<Rightarrow> [c]
                                        | Marked s \<Rightarrow> U ''<mark>'' @ s @ U ''</mark>'') segs)
       \<and> concat (map (\<lambda>seg. case seg of Plain c \<Rightarrow> [c] | Marked s \<Rightarrow> s) segs) = U ''aAaxAA'')
   \<and> map res_full_content (search_messages ascii_db example_archive (U ''hello'') None 0)
       = [U ''Hello\<newline>\<newline>---'']
   \<and> map res_content (search_messages ascii_db example_archive (U ''hello'') None 0)
       = [highlight ascii_db (U ''hello'') (U ''Hello\<newline>\<newline>---'')]
   \<and> highlight ascii_db (U ''hello'') (U ''Hello\<newline>\<newline>---'') = U ''<mark>Hello</mark>\<newline>\<newline>---''"
proof -
  from highlight_wraps_query [of ascii_db "U ''aa''" "U ''aAaxAA''" "[]" None 1]
  obtain segs where
    "highlight ascii_db (U ''aa'') (U ''aAaxAA'') =
       concat (map (\<lambda>seg. case seg of Plain c \<Rightarrow> [c]
                                    | Marked s \<Rightarrow> U ''<mark>'' @ s @ U ''</mark>'') segs)"
    and "concat (map (\<lambda>seg. case seg of Plain c \<Rightarrow> [c] | Marked s \<Rightarrow> s) segs) = U ''aAaxAA''"
    by blast
  then have 1: "highlight ascii_db (U ''aa'') (U ''aAaxAA'') = U ''<mark>aA</mark>ax<mark>AA</mark>''
   \<and> (\<exists>segs.
         U ''<mark>aA</mark>ax<mark>AA</mark>'' =
           concat (map (\<lambda>seg. case seg of Plain c \<Rightarrow> [c]
                                        | Marked s \<Rightarrow> U ''<mark>'' @ s @ U ''</mark>'') segs)
       \<and> concat (map (\<lambda>seg. case seg of Plain c \<Rightarrow> [c] | Marked s \<Rightarrow> s) segs) = U ''aAaxAA'')"
    unfolding example_highlight by blast
  have len: "\<not> length (U ''<mark>Hello</mark>\<newline>\<newline>---'') > 300"
    by (simp add: U_def)
  from highlight_wraps_query [of ascii_db "U ''hello''" "[]" example_archive None 0]
  have "\<forall>r \<in> set (search_messages ascii_db example_archive (U ''hello'') None 0).
         res_content r =
           (if length (highlight ascii_db (U ''hello'') (res_full_content r)) > 300
            then take 300 (highlight ascii_db (U ''hello'') (res_full_content r)) @ U ''...''
            else highlight ascii_db (U ''hello'') (res_full_content r))"
    by (rule conjunct2)
  then have 2: "map res_content (search_messages ascii_db example_archive (U ''hello'') None 0)
       = [highlight ascii_db (U ''hello'') (U ''Hello\<newline>\<newline>---'')]"
    unfolding example_search using len by (simp add: example_hello)
  have 3: "map res_full_content (search_messages ascii_db example_archive (U ''hello'') None 0)
       = [U ''Hello\<newline>\<newline>---'']"
    by (simp add: example_search)
  show ?thesis using 1 2 3 example_hello by (simp only: simp_thms)
qed

text \<open>
  Claim C2 fails at the limit 0: the archive holds one message that matches the query,
  and the search returns it, one result where the claim allows none.
\<close>

theorem search_messages_limit_zero:
  "length (search_messages ascii_db example_archive (U ''hello'') None 0) = 1"
  by (simp add: example_search)

end
